theory Spec2Isabelle
  imports Main "HOL-Library.Sublist"
begin

section \<open>JavaScript values used by the scanner\<close>

text \<open>
  Strings are byte strings (\<^typ>\<open>string\<close>) holding the UTF-8 encoding of the text.
  \<open>String.prototype.includes\<close> is the contiguous-substring test.
\<close>

definition str_includes :: \<open>string \<Rightarrow> string \<Rightarrow> bool\<close> where
  \<open>str_includes s k = sublist k s\<close>

text \<open>
  \<open>String.prototype.toLowerCase\<close>. Three kinds of characters have a lower case that
  contains an ASCII character: the letters \<open>A\<close> to \<open>Z\<close>; the Kelvin sign U+212A (bytes
  \<open>E2 84 AA\<close>), whose lower case is \<open>k\<close>; and the dotted capital I U+0130 (bytes \<open>C4 B0\<close>),
  whose lower case is \<open>i\<close> followed by the combining dot U+0307 (bytes \<open>CC 87\<close>). Every
  other character has a lower case without any ASCII character and is left as it is; the
  program compares lower-cased text with ASCII strings only (\<open>=== 's'\<close>, \<open>=== 'skip'\<close>,
  \<open>includes\<close> of an ASCII keyword), and for these comparisons that changes nothing.
\<close>

definition toLowerCase_char :: \<open>char \<Rightarrow> char\<close> where
  \<open>toLowerCase_char c =
     (let n = (of_char c :: nat) in if 65 \<le> n \<and> n \<le> 90 then char_of (n + 32) else c)\<close>

fun toLowerCase :: \<open>string \<Rightarrow> string\<close> where
  \<open>toLowerCase [] = []\<close>
| \<open>toLowerCase (c # cs) =
     (if c = CHR 0xE2 \<and> take 2 cs = [CHR 0x84, CHR 0xAA]
      then CHR ''k'' # toLowerCase (drop 2 cs)
      else if c = CHR 0xC4 \<and> take 1 cs = [CHR 0xB0]
      then CHR ''i'' # CHR 0xCC # CHR 0x87 # toLowerCase (drop 1 cs)
      else toLowerCase_char c # toLowerCase cs)\<close>

text \<open>
  \<open>encodeURIComponent\<close>: every byte outside \<open>A-Z a-z 0-9 - _ . ! ~ * ' ( )\<close> becomes
  \<open>%XX\<close> with upper-case hexadecimal digits.
\<close>

definition uriUnreserved :: \<open>char \<Rightarrow> bool\<close> where
  \<open>uriUnreserved c =
     (c \<in> set (''ABCDEFGHIJKLMNOPQRSTUVWXYZabcdefghijklmnopqrstuvwxyz0123456789-_.!~*()'' @ [CHR 0x27]))\<close>

definition hexDigit :: \<open>nat \<Rightarrow> char\<close> where
  \<open>hexDigit n = ''0123456789ABCDEF'' ! (n mod 16)\<close>

definition encodeURIComponent :: \<open>string \<Rightarrow> string\<close> where
  \<open>encodeURIComponent s =
     concat (map (\<lambda>c. if uriUnreserved c then [c]
                        else [CHR ''%'', hexDigit (of_char c div 16), hexDigit (of_char c mod 16)]) s)\<close>

text \<open>
  A thrown JavaScript error. The constructors name the throw sites of the program; the
  message texts play no role in any decision the code takes.
\<close>

datatype js_error =
    PageNotAvailable        \<comment> \<open>\<open>throw new Error(...)\<close> on a null or closed page at entry\<close>
  | PageClosedWhileWaiting  \<comment> \<open>\<open>throw new Error(...)\<close> inside a polling loop\<close>
  | EvaluationFailed        \<comment> \<open>\<open>page.evaluate\<close> rejected\<close>
  | WriteFailed             \<comment> \<open>\<open>fs.writeFile\<close> rejected\<close>
  | ReadFailed              \<comment> \<open>\<open>fs.readFile\<close> rejected\<close>
  | SyntaxError             \<comment> \<open>\<open>JSON.parse\<close> rejected its input\<close>

section \<open>domain-config.js\<close>

record domain_settings =
  includeSubdomains :: bool
  includeVariations :: bool
  limitPaths :: bool
  paths :: \<open>string list\<close>

record domain_config =
  TARGET_DOMAIN :: string
  ALTERNATIVE_DOMAINS :: \<open>string list\<close>
  DOMAIN_SETTINGS :: domain_settings

definition domain_config_js :: domain_config where
  \<open>domain_config_js =
     \<lparr> TARGET_DOMAIN = ''tesla.com'',
       ALTERNATIVE_DOMAINS = [''adm.tesla.com'', ''web.tesla.com''],
       DOMAIN_SETTINGS =
         \<lparr> includeSubdomains = True, includeVariations = True, limitPaths = False,
           paths = [''/wp-content'', ''/admin'', ''/api''] \<rparr> \<rparr>\<close>

section \<open>dorks-config.js\<close>

record search_engine =
  engine_name :: string
  engine_url :: string

text \<open>
  The result, title, link, snippet, statistics and cookie selectors of each engine are read
  by none of the functions modelled here and are left out.
\<close>

definition SEARCH_ENGINES :: \<open>search_engine list\<close> where
  \<open>SEARCH_ENGINES =
     [ \<lparr> engine_name = ''Google'', engine_url = ''https://www.google.com/search?q='' \<rparr>,
       \<lparr> engine_name = ''Bing'', engine_url = ''https://www.bing.com/search?q='' \<rparr>,
       \<lparr> engine_name = ''DuckDuckGo'', engine_url = ''https://duckduckgo.com/?q='' \<rparr>,
       \<lparr> engine_name = ''Yahoo'', engine_url = ''https://search.yahoo.com/search?p='' \<rparr> ]\<close>

definition generateGenericDorks :: \<open>string \<Rightarrow> string list\<close> where
  \<open>generateGenericDorks domain = [
     ''site:'' @ domain @ '' filetype:env OR filetype:yml password'',
     ''site:'' @ domain @ '' filetype:xml password'',
     ''site:'' @ domain @ '' filetype:log username password'',
     ''site:'' @ domain @ '' filetype:ini password OR key OR secret'',
     ''site:'' @ domain @ '' filetype:config password'',
     ''site:'' @ domain @ '' intext:"API_KEY" OR intext:"apikey" OR intext:"api_key"'',
     ''site:'' @ domain @ '' intext:"SECRET_KEY" OR intext:"client_secret"'',
     ''site:'' @ domain @ '' "authorization: Bearer"'',
     ''site:'' @ domain @ '' "access_token"'',
     ''site:'' @ domain @ '' intext:"aws_access_key_id" filetype:txt OR filetype:log'',
     ''site:'' @ domain @ '' intext:"jdbc:mysql:" -github'',
     ''site:'' @ domain @ '' "password" filetype:txt OR filetype:sql OR filetype:ini'',
     ''site:'' @ domain @ '' intitle:"Index of" "parent directory"'',
     ''site:'' @ domain @ '' intitle:"Index of" wp-admin'',
     ''site:'' @ domain @ '' inurl:"/wp-content/uploads/"'',
     ''site:'' @ domain @ '' intitle:"Index of" inurl:backup OR inurl:old OR inurl:bkp'',
     ''site:'' @ domain @ '' filetype:bak OR filetype:backup OR filetype:sql'',
     ''site:'' @ domain @ '' filetype:sql "INSERT INTO" -"SQL dump"'',
     ''site:'' @ domain @ '' filetype:sql intext:password'',
     ''site:'' @ domain @ '' filetype:log'',
     ''site:'' @ domain @ '' intext:"<!ENTITY % xx SYSTEM xx;"'',
     ''site:'' @ domain @ '' intext:"syntax error" filetype:sql'',
     ''site:'' @ domain @ '' filetype:json "api" OR "key" OR "token"'',
     ''site:'' @ domain @ '' filetype:conf "location ~"'',
     ''site:'' @ domain @ '' intitle:"Apache HTTP Server" intitle:"documentation"'',
     ''site:'' @ domain @ '' intext:"Apache Tomcat/" "error report"'',
     ''site:'' @ domain @ '' intext:"nginx error log"'',
     ''site:'' @ domain @ '' intitle:"Welcome to nginx!" intext:"Welcome to nginx"'',
     ''site:'' @ domain @ '' intitle:"403 Forbidden" intext:"nginx"'',
     ''site:'' @ domain @ '' inurl:login OR inurl:admin OR inurl:backend'',
     ''site:'' @ domain @ '' inurl:"/phpinfo.php" OR inurl:".php?mode=phpinfo"'',
     ''site:'' @ domain @ '' inurl:"/phpmyadmin/" OR inurl:"/adminer.php"'',
     ''site:'' @ domain @ '' inurl:"/wp-login.php" OR inurl:"/administrator/"'',
     ''site:'' @ domain @ '' inurl:"/server-status" OR inurl:"/server-info"'',
     ''site:'' @ domain @ '' inurl:"/wp-json/wp/v2/users"'',
     ''site:'' @ domain @ '' inurl:"/api/swagger" OR inurl:"/swagger-ui.html"'',
     ''site:'' @ domain @ '' inurl:"/api/v1" OR inurl:"/api/v2"'',
     ''site:'' @ domain @ '' inurl:"/.git" "Index of /.git"'',
     ''site:'' @ domain @ '' inurl:"/actuator/health" OR inurl:"/actuator/env"'',
     ''site:'' @ domain @ '' inurl:"/.env" OR inurl:"/config.js"'',
     ''site:'' @ domain @ '' inurl:"/.well-known/"'',
     ''site:'' @ domain @ '' "error occured at line" OR "syntax error"'',
     ''site:'' @ domain @ '' "Warning:" "database" "on line"'',
     ''site:'' @ domain @ '' "ERROR: The requested URL could not be retrieved"'',
     ''site:github.com '' @ domain,
     ''site:gitlab.com '' @ domain,
     ''site:bitbucket.org '' @ domain,
     ''site:pastebin.com '' @ domain,
     ''site:jsfiddle.net '' @ domain,
     ''site:codepen.io '' @ domain,
     ''site:trello.com '' @ domain,
     ''site:*.'' @ domain @ '' inurl:test OR inurl:dev OR inurl:stage OR inurl:beta'',
     ''site:*.'' @ domain @ '' inurl:uat OR inurl:qa OR inurl:staging'',
     ''site:test.'' @ domain @ '' OR site:dev.'' @ domain @ '' OR site:stage.'' @ domain @ '' OR site:stg.'' @ domain,
     ''site:*.'' @ domain @ '' -www intext:admin OR intext:login'',
     ''site:s3.amazonaws.com '' @ domain,
     ''site:blob.core.windows.net '' @ domain,
     ''site:storage.googleapis.com '' @ domain,
     ''site:cloudfront.net '' @ domain,
     ''site:digitaloceanspaces.com '' @ domain,
     ''site:'' @ domain @ '' inurl:"server-status" OR inurl:"status.php"'',
     ''site:'' @ domain @ '' intext:"Fatal error: Call to undefined function"'',
     ''site:'' @ domain @ '' inurl:"?page=" OR inurl:"?file=" OR inurl:"?id="'',
     ''site:'' @ domain @ '' inurl:"?php=" OR inurl:"?lang="'',
     ''site:'' @ domain @ '' ext:json OR ext:xml OR ext:conf OR ext:cnf OR ext:reg OR ext:inf OR ext:rdp OR ext:cfg OR ext:txt OR ext:ora OR ext:ini''
   ]\<close>

definition generateAEMDorks :: \<open>string \<Rightarrow> string list\<close> where
  \<open>generateAEMDorks domain = [
     ''site:'' @ domain @ '' inurl:crx'',
     ''site:'' @ domain @ '' inurl:bin/querybuilder.json'',
     ''site:'' @ domain @ '' inurl:.infinity.json'',
     ''site:'' @ domain @ '' inurl:.1.json'',
     ''site:'' @ domain @ '' inurl:.tidy.json'',
     ''site:'' @ domain @ '' inurl:.model.json'',
     ''site:'' @ domain @ '' inurl:/libs/granite/security/currentuser.json'',
     ''site:'' @ domain @ '' inurl:/system/console'',
     ''site:'' @ domain @ '' inurl:/crx/de/index.jsp'',
     ''site:'' @ domain @ '' inurl:/crx/explorer'',
     ''site:'' @ domain @ '' inurl:/etc/replication'',
     ''site:'' @ domain @ '' inurl:/etc/dam'',
     ''site:'' @ domain @ '' inurl:/system/sling/cqform'',
     ''site:'' @ domain @ '' inurl:/apps/'',
     ''site:'' @ domain @ '' inurl:/content/dam'',
     ''site:'' @ domain @ '' inurl:felix/bundles'',
     ''site:'' @ domain @ '' inurl:etc/clientlibs'',
     ''site:'' @ domain @ '' inurl:system/console/configMgr'',
     ''site:'' @ domain @ '' inurl:.servlet.json'',
     ''site:'' @ domain @ '' inurl:.servlet.html''
   ]\<close>

definition generateCMSDorks :: \<open>string \<Rightarrow> string list\<close> where
  \<open>generateCMSDorks domain = [
     ''site:'' @ domain @ '' inurl:wp-content'',
     ''site:'' @ domain @ '' inurl:wp-includes'',
     ''site:'' @ domain @ '' inurl:wp-admin'',
     ''site:'' @ domain @ '' inurl:wp-config.php'',
     ''site:'' @ domain @ '' inurl:wp-json/wp/v2/users'',
     ''site:'' @ domain @ '' inurl:xmlrpc.php'',
     ''site:'' @ domain @ '' inurl:index.php?option=com_'',
     ''site:'' @ domain @ '' inurl:/administrator/index.php'',
     ''site:'' @ domain @ '' intext:"Joomla! Debug Console"'',
     ''site:'' @ domain @ '' inurl:com_users'',
     ''site:'' @ domain @ '' inurl:/?q=user/'',
     ''site:'' @ domain @ '' inurl:/?q=admin/'',
     ''site:'' @ domain @ '' intext:"Powered by Drupal" inurl:user'',
     ''site:'' @ domain @ '' inurl:/sites/default/files/'',
     ''site:'' @ domain @ '' inurl:/app/etc/local.xml'',
     ''site:'' @ domain @ '' inurl:/downloader/'',
     ''site:'' @ domain @ '' intext:"Mage.Cookies.path"'',
     ''site:'' @ domain @ '' inurl:/admin_SOMETHING'',
     ''site:'' @ domain @ '' inurl:"/administrator/"'',
     ''site:'' @ domain @ '' inurl:"/admin/" OR inurl:"/cp/" OR inurl:"/backend/"''
   ]\<close>

definition generateEcommerceDorks :: \<open>string \<Rightarrow> string list\<close> where
  \<open>generateEcommerceDorks domain = [
     ''site:'' @ domain @ '' inurl:/checkout/ OR inurl:/cart/ OR inurl:/basket/'',
     ''site:'' @ domain @ '' inurl:/order OR inurl:/payment OR inurl:/transaction'',
     ''site:'' @ domain @ '' intext:"credit card" OR intext:"card number"'',
     ''site:'' @ domain @ '' inurl:checkout.php OR inurl:checkout.asp OR inurl:checkout.jsp'',
     ''site:'' @ domain @ '' intext:"cvv" OR intext:"cvc" inurl:payment'',
     ''site:'' @ domain @ '' intext:"payment gateway" OR intext:"gateway id"'',
     ''site:'' @ domain @ '' intext:"CHECKOUT_SESSION_ID"'',
     ''site:'' @ domain @ '' filetype:log intext:payment''
   ]\<close>

section \<open>dork-scanner.js: the dork generator\<close>

text \<open>
  \<open>[...new Set(dorks)]\<close>: a JavaScript \<open>Set\<close> keeps the first occurrence of every element, in
  insertion order.
\<close>

definition Set_add :: \<open>'a list \<Rightarrow> 'a \<Rightarrow> 'a list\<close> where
  \<open>Set_add s x = (if x \<in> set s then s else s @ [x])\<close>

definition new_Set :: \<open>'a list \<Rightarrow> 'a list\<close> where
  \<open>new_Set xs = foldl Set_add [] xs\<close>

text \<open>The body of \<open>types.forEach\<close>: the \<open>switch\<close> has four cases and no default.\<close>

definition addDorkType :: \<open>string \<Rightarrow> string list \<Rightarrow> nat \<Rightarrow> string list\<close> where
  \<open>addDorkType domain dorks type =
     (if type = 1 then dorks @ generateGenericDorks domain
      else if type = 2 then dorks @ generateAEMDorks domain
      else if type = 3 then dorks @ generateCMSDorks domain
      else if type = 4 then dorks @ generateEcommerceDorks domain
      else dorks)\<close>

text \<open>The three probes pushed for every alternative domain.\<close>

definition addAltDomain :: \<open>string list \<Rightarrow> string \<Rightarrow> string list\<close> where
  \<open>addAltDomain dorks altDomain =
     dorks @ [''site:'' @ altDomain,
              ''site:'' @ altDomain @ '' inurl:admin'',
              ''site:'' @ altDomain @ '' filetype:log'']\<close>

definition addPath :: \<open>string \<Rightarrow> string list \<Rightarrow> string \<Rightarrow> string list\<close> where
  \<open>addPath domain dorks path = dorks @ [''site:'' @ domain @ '' inurl:'' @ path]\<close>

definition generateDorksList :: \<open>domain_config \<Rightarrow> nat list \<Rightarrow> string \<Rightarrow> string list\<close> where
  \<open>generateDorksList cfg types domain =
     (let dorks = foldl (addDorkType domain) [] types;
          dorks = (if includeVariations (DOMAIN_SETTINGS cfg) \<and> length (ALTERNATIVE_DOMAINS cfg) > 0
                   then foldl addAltDomain dorks (ALTERNATIVE_DOMAINS cfg) else dorks);
          dorks = (if limitPaths (DOMAIN_SETTINGS cfg) \<and> length (paths (DOMAIN_SETTINGS cfg)) > 0
                   then foldl (addPath domain) dorks (paths (DOMAIN_SETTINGS cfg)) else dorks)
      in new_Set dorks)\<close>

text \<open>
  How a call of \<open>generateDorksList\<close> completes. The function has no \<open>throw\<close>, validates
  nothing and calls only the four template functions, so every call returns its list.
\<close>

definition generateDorksList_completion ::
  \<open>domain_config \<Rightarrow> nat list \<Rightarrow> string \<Rightarrow> js_error + string list\<close> where
  \<open>generateDorksList_completion cfg types domain = Inr (generateDorksList cfg types domain)\<close>

section \<open>utils.js: the checkpoint store\<close>

text \<open>
  The object \<open>saveCheckpoint\<close> serialises and \<open>loadCheckpoint\<close> returns; \<open>savedAt\<close> is its
  property \<open>timestamp\<close>. The sentinel of \<open>loadCheckpoint\<close> has \<open>reportContent: null\<close> and no
  \<open>timestamp\<close> property.
\<close>

record checkpoint =
  lastIndex :: int
  reportContent :: \<open>string option\<close>
  processedDorks :: \<open>string list\<close>
  savedAt :: \<open>string option\<close>

text \<open>
  File texts are modelled up to JSON parsing. \<open>JsonText c\<close> is the text that
  \<open>JSON.stringify\<close> produces from the checkpoint object \<open>c\<close> and that \<open>JSON.parse\<close> reads
  back as \<open>c\<close>; \<open>Malformed\<close> is a text that \<open>JSON.parse\<close> rejects. JSON documents of
  another shape than the checkpoint object are not modelled.
\<close>

datatype file_text = JsonText checkpoint | Malformed string

definition JSON_stringify :: \<open>checkpoint \<Rightarrow> file_text\<close> where
  \<open>JSON_stringify c = JsonText c\<close>

fun JSON_parse :: \<open>file_text \<Rightarrow> js_error + checkpoint\<close> where
  \<open>JSON_parse (JsonText c) = Inr c\<close>
| \<open>JSON_parse (Malformed s) = Inl SyntaxError\<close>

text \<open>
  The file system: the files that exist, with their texts, and the paths at which
  \<open>fs.writeFile\<close> succeeds (the directory exists, the location is writable).
\<close>

record filesystem =
  files :: \<open>string \<Rightarrow> file_text option\<close>
  writable :: \<open>string \<Rightarrow> bool\<close>

definition fs_pathExists :: \<open>filesystem \<Rightarrow> string \<Rightarrow> bool\<close> where
  \<open>fs_pathExists fs p = (files fs p \<noteq> None)\<close>

definition fs_readFile :: \<open>filesystem \<Rightarrow> string \<Rightarrow> js_error + file_text\<close> where
  \<open>fs_readFile fs p = (case files fs p of None \<Rightarrow> Inl ReadFailed | Some t \<Rightarrow> Inr t)\<close>

definition fs_writeFile :: \<open>filesystem \<Rightarrow> string \<Rightarrow> file_text \<Rightarrow> js_error + filesystem\<close> where
  \<open>fs_writeFile fs p t =
     (if writable fs p then Inr (fs\<lparr>files := (files fs)(p \<mapsto> t)\<rparr>) else Inl WriteFailed)\<close>

definition emptyCheckpoint :: checkpoint where
  \<open>emptyCheckpoint =
     \<lparr> lastIndex = - 1, reportContent = None, processedDorks = [], savedAt = None \<rparr>\<close>

text \<open>
  \<open>loadCheckpoint\<close>: every error inside the \<open>try\<close> is caught and logged, and the function
  falls through to the sentinel.
\<close>

definition loadCheckpoint :: \<open>filesystem \<Rightarrow> string \<Rightarrow> checkpoint\<close> where
  \<open>loadCheckpoint fs checkpointFile =
     (if fs_pathExists fs checkpointFile then
        (case fs_readFile fs checkpointFile of
           Inl e \<Rightarrow> emptyCheckpoint
         | Inr data \<Rightarrow>
             (case JSON_parse data of
                Inl e \<Rightarrow> emptyCheckpoint
              | Inr checkpoint \<Rightarrow> checkpoint))
      else emptyCheckpoint)\<close>

text \<open>
  \<open>saveCheckpoint\<close>: a failed write is caught and logged, and the file system is left as it
  was. \<open>now\<close> is \<open>new Date().toISOString()\<close>.
\<close>

definition saveCheckpoint ::
  \<open>filesystem \<Rightarrow> string \<Rightarrow> int \<Rightarrow> string \<Rightarrow> string list \<Rightarrow> string \<Rightarrow> filesystem\<close> where
  \<open>saveCheckpoint fs checkpointFile index content processed now =
     (case fs_writeFile fs checkpointFile
             (JSON_stringify \<lparr> lastIndex = index, reportContent = Some content,
                               processedDorks = processed, savedAt = Some now \<rparr>) of
        Inl e \<Rightarrow> fs
      | Inr fs' \<Rightarrow> fs')\<close>

section \<open>human-interaction.js: the challenge detector\<close>

text \<open>
  What the function evaluated inside the page reads from the document: the inner text of
  \<open>document.body\<close> (\<open>None\<close> when there is no body), which selectors
  \<open>document.querySelector\<close> finds, and how many elements the image-grid selector matches.
\<close>

record document =
  bodyInnerText :: \<open>string option\<close>
  querySelector :: \<open>string \<Rightarrow> bool\<close>
  gridImages :: nat

text \<open>
  A page as one call sees it: whether \<open>page.isClosed()\<close> holds, and the document an
  evaluation runs against (\<open>None\<close> when \<open>page.evaluate\<close> rejects). A page handle is a
  \<open>page option\<close>, \<open>None\<close> being \<open>null\<close> or \<open>undefined\<close>.
\<close>

record page =
  isClosed :: bool
  evalContext :: \<open>document option\<close>

definition page_evaluate :: \<open>page \<Rightarrow> (document \<Rightarrow> 'a) \<Rightarrow> js_error + 'a\<close> where
  \<open>page_evaluate p f = (case evalContext p of None \<Rightarrow> Inl EvaluationFailed | Some doc \<Rightarrow> Inr (f doc))\<close>

datatype reason =
    BodyUnavailable
  | KeywordFound string
  | SelectorFound string
  | ImageGridFound

record detection =
  detected :: bool
  reason :: \<open>reason option\<close>

definition blockKeywords :: \<open>string list\<close> where
  \<open>blockKeywords =
     [''captcha'', ''robot'', ''automated'', ''bot check'', ''suspicious activity'',
      ''unusual traffic'', ''security check'', ''human verification'',
      ''verify you are human'', ''are you a robot'', ''challenge'', ''blocked'',
      ''access denied'', ''denied access'', ''too many requests'', ''rate limit exceeded'',
      ''please wait'', ''suspicious'', ''behavior detected'', ''verifica'']\<close>

definition captchaSelectors :: \<open>string list\<close> where
  \<open>captchaSelectors =
     [''iframe[src*="recaptcha"]'', ''iframe[src*="captcha"]'', ''iframe[src*="hcaptcha"]'',
      ''iframe[src*="funcaptcha"]'', ''iframe[src*="arkoselabs"]'', ''div.g-recaptcha'',
      ''div.h-captcha'', ''div#captcha'', ''div.captcha'', ''input[name*="captcha"]'',
      ''img[alt*="captcha"]'', ''form[action*="captcha"]'']\<close>

text \<open>The function that \<open>detectCaptchaOrBlock\<close> evaluates in the page.\<close>

definition detectInPage :: \<open>document \<Rightarrow> detection\<close> where
  \<open>detectInPage doc =
     (case bodyInnerText doc of
        None \<Rightarrow> \<lparr> detected = False, reason = Some BodyUnavailable \<rparr>
      | Some innerText \<Rightarrow>
          (let bodyText = toLowerCase innerText in
           case find (\<lambda>keyword. str_includes bodyText keyword) blockKeywords of
             Some keyword \<Rightarrow> \<lparr> detected = True, reason = Some (KeywordFound keyword) \<rparr>
           | None \<Rightarrow>
               (case find (\<lambda>selector. querySelector doc selector) captchaSelectors of
                  Some selector \<Rightarrow> \<lparr> detected = True, reason = Some (SelectorFound selector) \<rparr>
                | None \<Rightarrow>
                    (if gridImages doc > 4
                     then \<lparr> detected = True, reason = Some ImageGridFound \<rparr>
                     else \<lparr> detected = False, reason = None \<rparr>))))\<close>

definition detectCaptchaOrBlock :: \<open>page option \<Rightarrow> js_error + bool\<close> where
  \<open>detectCaptchaOrBlock pg =
     (case pg of
        None \<Rightarrow> Inl PageNotAvailable
      | Some p \<Rightarrow>
          (if isClosed p then Inl PageNotAvailable
           else (case page_evaluate p detectInPage of
                   Inr blocked \<Rightarrow> (if detected blocked then Inr True else Inr False)
                 | Inl error \<Rightarrow> Inr True)))\<close>

text \<open>
  \<open>flashBrowserWindow\<close> throws on a null or closed page; everything after that check runs
  inside a \<open>try\<close> whose \<open>catch\<close> only logs.
\<close>

definition flashBrowserWindow :: \<open>page option \<Rightarrow> js_error + unit\<close> where
  \<open>flashBrowserWindow pg =
     (case pg of
        None \<Rightarrow> Inl PageNotAvailable
      | Some p \<Rightarrow> (if isClosed p then Inl PageNotAvailable else Inr ()))\<close>

section \<open>human-interaction.js: the human handoff\<close>

text \<open>
  One pass of the \<open>while\<close> loop of \<open>waitForCaptchaResolution\<close> reads from its surroundings:
  \<open>Date.now()\<close> in the loop condition, the operator's line as
  \<open>rl.history && rl.history[0]\<close> shows it once the prompt has returned, the page as
  \<open>page.isClosed()\<close> sees it, and the page as the detector call sees it.
\<close>

record handoff_obs =
  clock :: int
  lastAnswer :: \<open>string option\<close>
  pageAtCheck :: page
  pageAtRecheck :: page

definition isSkip :: \<open>string option \<Rightarrow> bool\<close> where
  \<open>isSkip answer =
     (case answer of None \<Rightarrow> False | Some a \<Rightarrow> a \<noteq> [] \<and> toLowerCase a = ''skip'')\<close>

text \<open>
  The loop \<open>while (Date.now() - startTime < timeoutMs && !resolved)\<close> with the two returns
  that follow it. The flag \<open>resolved\<close> is an argument; once it is set the condition fails
  whatever the clock reads, and the function returns \<open>true\<close>. The result is \<open>None\<close> when the
  observations end while the loop is still waiting for the operator.
\<close>

fun handoffLoop :: \<open>int \<Rightarrow> int \<Rightarrow> bool \<Rightarrow> handoff_obs list \<Rightarrow> bool option\<close> where
  \<open>handoffLoop startTime timeoutMs True obs = Some True\<close>
| \<open>handoffLoop startTime timeoutMs False [] = None\<close>
| \<open>handoffLoop startTime timeoutMs False (ob # rest) =
     (if clock ob - startTime < timeoutMs then
        (if isSkip (lastAnswer ob) then Some False
         else if isClosed (pageAtCheck ob) then Some False
         else (case detectCaptchaOrBlock (Some (pageAtRecheck ob)) of
                 Inr stillBlocked \<Rightarrow>
                   (if \<not> stillBlocked then handoffLoop startTime timeoutMs True rest
                    else handoffLoop startTime timeoutMs False rest)
               | Inl error \<Rightarrow> handoffLoop startTime timeoutMs True rest))
      else Some False)\<close>

text \<open>
  \<open>waitForCaptchaResolution(page, timeoutMs, autoDetect)\<close>. \<open>pageAtDetect\<close> is the page as
  the first detector call sees it, \<open>startTime\<close> the value of \<open>Date.now()\<close> before the loop.
  The parameter \<open>autoDetect\<close> is never read.
\<close>

definition waitForCaptchaResolution ::
  \<open>page option \<Rightarrow> int \<Rightarrow> bool \<Rightarrow> page \<Rightarrow> int \<Rightarrow> handoff_obs list \<Rightarrow> bool option\<close> where
  \<open>waitForCaptchaResolution pg timeoutMs autoDetect pageAtDetect startTime obs =
     (case pg of
        None \<Rightarrow> Some False
      | Some p \<Rightarrow>
          (if isClosed p then Some False
           else
             (let needsHumanInteraction =
                    (case detectCaptchaOrBlock (Some pageAtDetect) of
                       Inr b \<Rightarrow> b
                     | Inl error \<Rightarrow> True)
              in if needsHumanInteraction
                 then (case flashBrowserWindow (Some pageAtDetect) of
                         Inl error \<Rightarrow> handoffLoop startTime timeoutMs False obs
                       | Inr u \<Rightarrow> handoffLoop startTime timeoutMs False obs)
                 else Some True)))\<close>

section \<open>human-interaction.js: the operator's line and the readline interface\<close>

text \<open>
  The module creates its interface with \<open>input\<close> and \<open>output\<close> only, so the interface runs
  in terminal mode exactly when the output stream is a terminal.
  \<open>waitForUserConfirmation\<close> calls \<open>rl.question\<close> with a callback that takes no argument:
  the line the operator enters is not passed on, and the loop of
  \<open>waitForCaptchaResolution\<close> looks for it in \<open>rl.history\<close>.

  What the interface does with an entered line: in terminal mode a line that does not
  consist of white space only is put at the front of the history, unless it is there
  already, and the history keeps its 30 newest lines; an interface that is not in terminal
  mode records nothing.
\<close>

record readline =
  terminal :: bool
  history :: \<open>string list\<close>

text \<open>
  The white space that \<open>String.prototype.trim\<close> removes, in UTF-8: the ASCII characters
  U+0009 to U+000D and U+0020; U+00A0; and, as three-byte sequences, U+1680, U+2000 to
  U+200A, U+2028, U+2029, U+202F, U+205F, U+3000 and U+FEFF.
\<close>

definition whiteSpace1 :: \<open>char list\<close> where
  \<open>whiteSpace1 = [CHR 0x09, CHR 0x0A, CHR 0x0B, CHR 0x0C, CHR 0x0D, CHR 0x20]\<close>

definition whiteSpace3 :: \<open>(char \<times> char list) list\<close> where
  \<open>whiteSpace3 =
     [(CHR 0xE1, [CHR 0x9A, CHR 0x80]),
      (CHR 0xE2, [CHR 0x80, CHR 0x80]), (CHR 0xE2, [CHR 0x80, CHR 0x81]),
      (CHR 0xE2, [CHR 0x80, CHR 0x82]), (CHR 0xE2, [CHR 0x80, CHR 0x83]),
      (CHR 0xE2, [CHR 0x80, CHR 0x84]), (CHR 0xE2, [CHR 0x80, CHR 0x85]),
      (CHR 0xE2, [CHR 0x80, CHR 0x86]), (CHR 0xE2, [CHR 0x80, CHR 0x87]),
      (CHR 0xE2, [CHR 0x80, CHR 0x88]), (CHR 0xE2, [CHR 0x80, CHR 0x89]),
      (CHR 0xE2, [CHR 0x80, CHR 0x8A]),
      (CHR 0xE2, [CHR 0x80, CHR 0xA8]), (CHR 0xE2, [CHR 0x80, CHR 0xA9]),
      (CHR 0xE2, [CHR 0x80, CHR 0xAF]), (CHR 0xE2, [CHR 0x81, CHR 0x9F]),
      (CHR 0xE3, [CHR 0x80, CHR 0x80]), (CHR 0xEF, [CHR 0xBB, CHR 0xBF])]\<close>

text \<open>\<open>line.trim().length === 0\<close>: the line consists of white space only.\<close>

fun isBlank :: \<open>string \<Rightarrow> bool\<close> where
  \<open>isBlank [] = True\<close>
| \<open>isBlank (c # cs) =
     (if c \<in> set whiteSpace1 then isBlank cs
      else if c = CHR 0xC2 \<and> take 1 cs = [CHR 0xA0] then isBlank (drop 1 cs)
      else if (c, take 2 cs) \<in> set whiteSpace3 then isBlank (drop 2 cs)
      else False)\<close>

text \<open>The interface receives the line the operator has entered.\<close>

definition rl_line :: \<open>readline \<Rightarrow> string \<Rightarrow> readline\<close> where
  \<open>rl_line rl line =
     (if terminal rl \<and> \<not> isBlank line
         \<and> (case history rl of [] \<Rightarrow> True | newest # older \<Rightarrow> newest \<noteq> line)
      then (let h = line # history rl
            in rl\<lparr>history := (if length h > 30 then butlast h else h)\<rparr>)
      else rl)\<close>

text \<open>
  \<open>waitForUserConfirmation(message)\<close> while the operator enters \<open>line\<close>: the promise
  resolves without a value, and what remains is the state of the interface.
\<close>

definition waitForUserConfirmation :: \<open>readline \<Rightarrow> string \<Rightarrow> readline\<close> where
  \<open>waitForUserConfirmation rl line = rl_line rl line\<close>

text \<open>\<open>rl.history && rl.history[0]\<close>: \<open>undefined\<close> when there is no recorded line.\<close>

definition historyFront :: \<open>readline \<Rightarrow> string option\<close> where
  \<open>historyFront rl = (case history rl of [] \<Rightarrow> None | newest # older \<Rightarrow> Some newest)\<close>

text \<open>
  One pass of the handoff loop as the operator and the browser make it: the clock at the
  loop condition, the line the operator enters at the prompt, and the page at the two
  reads.
\<close>

record operator_pass =
  promptedAt :: int
  typed :: string
  pageWhenChecked :: page
  pageWhenRechecked :: page

text \<open>
  What the loop reads in each pass, the interface being carried from prompt to prompt.
\<close>

fun readPasses :: \<open>readline \<Rightarrow> operator_pass list \<Rightarrow> handoff_obs list\<close> where
  \<open>readPasses rl [] = []\<close>
| \<open>readPasses rl (p # ps) =
     (let rl' = waitForUserConfirmation rl (typed p)
      in \<lparr> clock = promptedAt p, lastAnswer = historyFront rl',
           pageAtCheck = pageWhenChecked p, pageAtRecheck = pageWhenRechecked p \<rparr>
         # readPasses rl' ps)\<close>

text \<open>
  \<open>waitForCaptchaResolution\<close> with the module's interface \<open>rl\<close> and the lines the operator
  enters.
\<close>

definition waitForCaptchaResolution_rl ::
  \<open>readline \<Rightarrow> page option \<Rightarrow> int \<Rightarrow> bool \<Rightarrow> page \<Rightarrow> int \<Rightarrow> operator_pass list \<Rightarrow> bool option\<close> where
  \<open>waitForCaptchaResolution_rl rl pg timeoutMs autoDetect pageAtDetect startTime passes =
     waitForCaptchaResolution pg timeoutMs autoDetect pageAtDetect startTime (readPasses rl passes)\<close>

section \<open>human-interaction.js: the page stability waiter\<close>

record stability_stats =
  lastChange :: int
  domSize :: nat

text \<open>
  One pass of the polling loop reads \<open>Date.now()\<close> three times (loop condition, on a change
  of the DOM size, stability test), \<open>page.isClosed()\<close>, and the result of the evaluation
  (\<open>None\<close> when it throws).
\<close>

record stability_obs =
  nowAtCondition :: int
  closedNow :: bool
  stats :: \<open>stability_stats option\<close>
  nowAtChange :: int
  nowAtTest :: int

fun stabilityLoop ::
  \<open>int \<Rightarrow> int \<Rightarrow> int \<Rightarrow> int \<Rightarrow> nat \<Rightarrow> stability_obs list \<Rightarrow> (js_error + bool) option\<close> where
  \<open>stabilityLoop startTime stableTime maxWaitTime lastChangeTime knownSize [] = None\<close>
| \<open>stabilityLoop startTime stableTime maxWaitTime lastChangeTime knownSize (ob # rest) =
     (if nowAtCondition ob - startTime < maxWaitTime then
        (if closedNow ob then Some (Inl PageClosedWhileWaiting)
         else (case stats ob of
                 None \<Rightarrow> Some (Inr False)
               | Some st \<Rightarrow>
                   (let lastChangeTime' = (if domSize st \<noteq> knownSize then nowAtChange ob else lastChangeTime);
                        knownSize' = (if domSize st \<noteq> knownSize then domSize st else knownSize)
                    in if nowAtTest ob - lastChangeTime' \<ge> stableTime then Some (Inr True)
                       else stabilityLoop startTime stableTime maxWaitTime lastChangeTime' knownSize' rest)))
      else Some (Inr True))\<close>

text \<open>
  \<open>waitForPageStability(page, stableTime, maxWaitTime)\<close>. Installing the observers is one
  evaluation in the page; when it throws the function returns \<open>false\<close>.
\<close>

definition waitForPageStability ::
  \<open>page option \<Rightarrow> int \<Rightarrow> int \<Rightarrow> int \<Rightarrow> stability_obs list \<Rightarrow> (js_error + bool) option\<close> where
  \<open>waitForPageStability pg stableTime maxWaitTime startTime obs =
     (case pg of
        None \<Rightarrow> Some (Inl PageNotAvailable)
      | Some p \<Rightarrow>
          (if isClosed p then Some (Inl PageNotAvailable)
           else (case page_evaluate p (\<lambda>doc. ()) of
                   Inl error \<Rightarrow> Some (Inr False)
                 | Inr u \<Rightarrow> stabilityLoop startTime stableTime maxWaitTime startTime 0 obs)))\<close>

section \<open>dork-scanner.js: the scan driver\<close>

definition MANUAL_VALIDATION_MODE :: bool where
  \<open>MANUAL_VALIDATION_MODE = True\<close>

definition SAVE_CHECKPOINT :: bool where
  \<open>SAVE_CHECKPOINT = True\<close>

definition CHECKPOINT_FILE :: string where
  \<open>CHECKPOINT_FILE = ''dork_checkpoint.json''\<close>

text \<open>
  The object built by \<open>displayOnlyDorkInfo\<close>. The driver also reads the property
  \<open>manuallyChecked\<close> of it; \<open>None\<close> is \<open>undefined\<close>, the value of a property the object
  does not have.
\<close>

record dork_info =
  dork :: string
  searchEngine :: string
  searchUrl :: string
  timestamp :: string
  result_manuallyChecked :: \<open>bool option\<close>

definition truthy :: \<open>bool option \<Rightarrow> bool\<close> where
  \<open>truthy v = (case v of None \<Rightarrow> False | Some b \<Rightarrow> b)\<close>

text \<open>The counters of \<open>stats\<close> that the loop updates, and \<open>totalDorks\<close>.\<close>

record scan_stats =
  totalDorks :: nat
  dorksProcessed :: nat
  stats_manuallyChecked :: nat

text \<open>
  What the driver draws from its surroundings while dork \<open>i\<close> is processed: the random
  number that picks the search engine, the clock, the operator's answer to
  \<open>askUserToCheckUrl\<close>, and whether the \<open>try\<close> block of \<open>openBrowserForUrl\<close> throws. The
  operator answers every prompt.
\<close>

record scan_env =
  randomEngine :: \<open>nat \<Rightarrow> nat\<close>
  isoTime :: \<open>nat \<Rightarrow> string\<close>
  checkAnswer :: \<open>nat \<Rightarrow> string\<close>
  browserThrows :: \<open>nat \<Rightarrow> bool\<close>

text \<open>The effects of the driver, in the order in which they happen.\<close>

datatype event =
    SkipProcessed nat    \<comment> \<open>the \<open>continue\<close> of an already processed dork\<close>
  | DisplayDork nat      \<comment> \<open>\<open>displayOnlyDorkInfo\<close> has printed the dork\<close>
  | AskCheck nat         \<comment> \<open>\<open>askUserToCheckUrl\<close> has been answered\<close>
  | BrowserOpened nat    \<comment> \<open>\<open>openBrowserForUrl\<close> has been entered\<close>
  | BrowserClosed nat    \<comment> \<open>its \<open>try\<close> block ran to the end: operator confirmed, browser closed\<close>
  | BrowserError nat     \<comment> \<open>its \<open>catch\<close> block ran\<close>
  | DorkDone nat         \<comment> \<open>\<open>processDorkDisplayMode\<close> has returned\<close>
  | CheckpointSave nat   \<comment> \<open>\<open>saveCheckpoint\<close> has been called with this index\<close>
  | Pause nat            \<comment> \<open>the confirmation asked after every tenth dork\<close>

fun event_index :: \<open>event \<Rightarrow> nat\<close> where
  \<open>event_index (SkipProcessed i) = i\<close>
| \<open>event_index (DisplayDork i) = i\<close>
| \<open>event_index (AskCheck i) = i\<close>
| \<open>event_index (BrowserOpened i) = i\<close>
| \<open>event_index (BrowserClosed i) = i\<close>
| \<open>event_index (BrowserError i) = i\<close>
| \<open>event_index (DorkDone i) = i\<close>
| \<open>event_index (CheckpointSave i) = i\<close>
| \<open>event_index (Pause i) = i\<close>

text \<open>The events that belong to the processing of dork \<open>i\<close> by \<open>processDorkDisplayMode\<close>.\<close>

definition processing_events :: \<open>nat \<Rightarrow> event set\<close> where
  \<open>processing_events i =
     {DisplayDork i, AskCheck i, BrowserOpened i, BrowserClosed i, BrowserError i, DorkDone i}\<close>

text \<open>
  \<open>displayOnlyDorkInfo\<close> and \<open>processDorkDisplayMode\<close> use their parameters \<open>index\<close> and
  \<open>totalDorks\<close> for console output only; here the index selects what is drawn from the
  surroundings and labels the effects.
\<close>

definition getRandomSearchEngine :: \<open>scan_env \<Rightarrow> nat \<Rightarrow> search_engine\<close> where
  \<open>getRandomSearchEngine env i = SEARCH_ENGINES ! (randomEngine env i mod length SEARCH_ENGINES)\<close>

definition displayOnlyDorkInfo :: \<open>string \<Rightarrow> search_engine \<Rightarrow> string \<Rightarrow> dork_info\<close> where
  \<open>displayOnlyDorkInfo d engine now =
     \<lparr> dork = d,
       searchEngine = engine_name engine,
       searchUrl = engine_url engine @ encodeURIComponent d,
       timestamp = now,
       result_manuallyChecked = None \<rparr>\<close>

definition askUserToCheckUrl :: \<open>string \<Rightarrow> bool\<close> where
  \<open>askUserToCheckUrl answer = (toLowerCase answer = ''s'')\<close>

definition openBrowserForUrl :: \<open>scan_env \<Rightarrow> nat \<Rightarrow> event list\<close> where
  \<open>openBrowserForUrl env i =
     BrowserOpened i # (if browserThrows env i then [BrowserError i] else [BrowserClosed i])\<close>

definition processDorkDisplayMode :: \<open>scan_env \<Rightarrow> string \<Rightarrow> nat \<Rightarrow> dork_info \<times> event list\<close> where
  \<open>processDorkDisplayMode env d i =
     (let engine = getRandomSearchEngine env i;
          result = displayOnlyDorkInfo d engine (isoTime env i);
          shown = [DisplayDork i];
          checked =
            (if MANUAL_VALIDATION_MODE
             then AskCheck i # (if askUserToCheckUrl (checkAnswer env i) then openBrowserForUrl env i else [])
             else [])
      in (result, shown @ checked @ [DorkDone i]))\<close>

text \<open>
  The local state of \<open>runMultiEngineDorkScan\<close> while its loop runs: \<open>results\<close>,
  \<open>processedDorks\<close>, \<open>stats\<close>, the file system, and the effects so far.
\<close>

record scan_state =
  results :: \<open>dork_info list\<close>
  processed :: \<open>string list\<close>
  scanStats :: scan_stats
  disk :: filesystem
  trace :: \<open>event list\<close>

text \<open>The body of the \<open>for\<close> loop at index \<open>i\<close> (with \<open>i < dorks.length\<close>).\<close>

definition scan_step :: \<open>scan_env \<Rightarrow> string list \<Rightarrow> string \<Rightarrow> nat \<Rightarrow> scan_state \<Rightarrow> scan_state\<close> where
  \<open>scan_step env dorks content i s =
     (let d = dorks ! i in
      if d \<in> set (processed s) then s\<lparr>trace := trace s @ [SkipProcessed i]\<rparr>
      else
        (let (result, evs) = processDorkDisplayMode env d i;
             s1 = s\<lparr> results := results s @ [result],
                     processed := processed s @ [d],
                     scanStats := (scanStats s)\<lparr>dorksProcessed := dorksProcessed (scanStats s) + 1\<rparr>,
                     trace := trace s @ evs \<rparr>;
             s2 = (if MANUAL_VALIDATION_MODE \<and> truthy (result_manuallyChecked result)
                   then s1\<lparr>scanStats := (scanStats s1)
                            \<lparr>stats_manuallyChecked := stats_manuallyChecked (scanStats s1) + 1\<rparr>\<rparr>
                   else s1);
             s3 = (if SAVE_CHECKPOINT
                   then s2\<lparr> disk := saveCheckpoint (disk s2) CHECKPOINT_FILE (int i) content
                                       (processed s2) (isoTime env i),
                             trace := trace s2 @ [CheckpointSave i] \<rparr>
                   else s2);
             s4 = (if (i + 1) mod 10 = 0 \<and> int i < int (length dorks) - 1
                   then s3\<lparr>trace := trace s3 @ [Pause i]\<rparr>
                   else s3)
         in s4))\<close>

function scan_loop :: \<open>scan_env \<Rightarrow> string list \<Rightarrow> string \<Rightarrow> nat \<Rightarrow> scan_state \<Rightarrow> scan_state\<close> where
  \<open>scan_loop env dorks content i s =
     (if i < length dorks then scan_loop env dorks content (i + 1) (scan_step env dorks content i s)
      else s)\<close>
  by pat_completeness auto
termination
  by (relation \<open>measure (\<lambda>(env, dorks, content, i, s). length dorks - i)\<close>) auto

declare scan_loop.simps [simp del]

text \<open>
  \<open>runMultiEngineDorkScan\<close> from the loading of the checkpoint to the end of the loop, for
  the generated list \<open>dorks\<close>. \<open>checkpoint.processedDorks || []\<close> is the array itself, and
  \<open>checkpoint.reportContent || ''\<close> is the empty string for \<open>null\<close>. The loop index is a
  natural number here: a file whose \<open>lastIndex\<close> is below \<open>-1\<close>, which \<open>saveCheckpoint\<close>
  never writes from this loop, is outside the model and gives \<open>None\<close>.
\<close>

definition runMultiEngineDorkScan :: \<open>scan_env \<Rightarrow> filesystem \<Rightarrow> string list \<Rightarrow> scan_state option\<close> where
  \<open>runMultiEngineDorkScan env fs dorks =
     (let checkpoint = loadCheckpoint fs CHECKPOINT_FILE;
          startIndex = lastIndex checkpoint + 1;
          processedDorks0 = processedDorks checkpoint;
          content = (case reportContent checkpoint of None \<Rightarrow> [] | Some c \<Rightarrow> c);
          stats0 = \<lparr> totalDorks = length dorks, dorksProcessed = 0, stats_manuallyChecked = 0 \<rparr>
      in if startIndex < 0 then None
         else Some (scan_loop env dorks content (nat startIndex)
                      \<lparr> results = [], processed = processedDorks0, scanStats = stats0,
                        disk = fs, trace = [] \<rparr>))\<close>

text \<open>
  The place of an effect in the run: the loop index first, then the position inside one
  pass of the loop body.
\<close>

fun event_phase :: \<open>event \<Rightarrow> nat\<close> where
  \<open>event_phase (SkipProcessed i) = 0\<close>
| \<open>event_phase (DisplayDork i) = 1\<close>
| \<open>event_phase (AskCheck i) = 2\<close>
| \<open>event_phase (BrowserOpened i) = 3\<close>
| \<open>event_phase (BrowserClosed i) = 4\<close>
| \<open>event_phase (BrowserError i) = 5\<close>
| \<open>event_phase (DorkDone i) = 6\<close>
| \<open>event_phase (CheckpointSave i) = 7\<close>
| \<open>event_phase (Pause i) = 8\<close>

definition event_key :: \<open>event \<Rightarrow> nat\<close> where
  \<open>event_key e = 9 * event_index e + event_phase e\<close>

definition in_order :: \<open>event list \<Rightarrow> bool\<close> where
  \<open>in_order tr = sorted_wrt (\<lambda>a b. event_key a < event_key b) tr\<close>

text \<open>
  The effects of one pass of the loop body that processes dork \<open>i\<close>: the browser
  verification if the operator asks for it, and the pause after every tenth dork.
\<close>

definition verification_events :: \<open>scan_env \<Rightarrow> nat \<Rightarrow> event list\<close> where
  \<open>verification_events env i =
     (if askUserToCheckUrl (checkAnswer env i) then openBrowserForUrl env i else [])\<close>

definition pause_events :: \<open>string list \<Rightarrow> nat \<Rightarrow> event list\<close> where
  \<open>pause_events dorks i =
     (if (i + 1) mod 10 = 0 \<and> int i < int (length dorks) - 1 then [Pause i] else [])\<close>

definition process_block :: \<open>scan_env \<Rightarrow> string list \<Rightarrow> nat \<Rightarrow> event list\<close> where
  \<open>process_block env dorks i =
     DisplayDork i # AskCheck i # verification_events env i
       @ [DorkDone i, CheckpointSave i] @ pause_events dorks i\<close>

text \<open>
  Invariants of the loop, at the head of the pass for index \<open>i\<close>. The effects so far are
  in order and belong to earlier indices, every save follows the end of the processing of
  its dork, and every browser session that was opened has ended.
\<close>

definition order_inv :: \<open>nat \<Rightarrow> scan_state \<Rightarrow> bool\<close> where
  \<open>order_inv i s \<longleftrightarrow>
     in_order (trace s) \<and> (\<forall>e\<in>set (trace s). event_index e < i)
     \<and> (\<forall>j. CheckpointSave j \<in> set (trace s) \<longrightarrow> DorkDone j \<in> set (trace s))
     \<and> (\<forall>j. BrowserOpened j \<in> set (trace s) \<longrightarrow>
            BrowserClosed j \<in> set (trace s) \<or> BrowserError j \<in> set (trace s))\<close>

text \<open>
  With \<open>start\<close> the first index of the loop and \<open>P0\<close> the processed dorks of the checkpoint:
  no index below \<open>start\<close> has been touched, every index from \<open>start\<close> up to \<open>i\<close> has been
  skipped or processed, and the dorks of \<open>P0\<close> have only been skipped.
\<close>

definition visit_inv :: \<open>nat \<Rightarrow> string list \<Rightarrow> string list \<Rightarrow> nat \<Rightarrow> scan_state \<Rightarrow> bool\<close> where
  \<open>visit_inv start dorks P0 i s \<longleftrightarrow>
     start \<le> i \<and> set P0 \<subseteq> set (processed s)
     \<and> (\<forall>e\<in>set (trace s). start \<le> event_index e)
     \<and> (\<forall>j. start \<le> j \<and> j < i \<longrightarrow> SkipProcessed j \<in> set (trace s) \<or> DorkDone j \<in> set (trace s))
     \<and> (\<forall>j. start \<le> j \<and> j < i \<and> dorks ! j \<in> set P0 \<longrightarrow> SkipProcessed j \<in> set (trace s))
     \<and> (\<forall>e\<in>set (trace s). dorks ! event_index e \<in> set P0 \<longrightarrow> e = SkipProcessed (event_index e))\<close>

text \<open>The counter of manual checks is zero and no result carries the flag.\<close>

definition flag_inv :: \<open>scan_state \<Rightarrow> bool\<close> where
  \<open>flag_inv s \<longleftrightarrow>
     stats_manuallyChecked (scanStats s) = 0 \<and> (\<forall>r\<in>set (results s). result_manuallyChecked r = None)\<close>

section \<open>Concrete inputs\<close>

text \<open>A page that is open and whose evaluations are rejected.\<close>

definition page_evaluation_fails :: page where
  \<open>page_evaluation_fails = \<lparr> isClosed = False, evalContext = None \<rparr>\<close>

text \<open>
  A document without a body in which every selector matches and the image grid has nine
  tiles, and an open page that shows it.
\<close>

definition document_without_body :: document where
  \<open>document_without_body = \<lparr> bodyInnerText = None, querySelector = (\<lambda>s. True), gridImages = 9 \<rparr>\<close>

definition page_without_body :: page where
  \<open>page_without_body = \<lparr> isClosed = False, evalContext = Some document_without_body \<rparr>\<close>

text \<open>An empty disk on which every write succeeds, and one on which every write fails.\<close>

definition writable_disk :: filesystem where
  \<open>writable_disk = \<lparr> files = (\<lambda>p. None), writable = (\<lambda>p. True) \<rparr>\<close>

definition unwritable_disk :: filesystem where
  \<open>unwritable_disk = \<lparr> files = (\<lambda>p. None), writable = (\<lambda>p. False) \<rparr>\<close>

text \<open>An open page that shows a challenge, and a closed page.\<close>

definition challenge_document :: document where
  \<open>challenge_document =
     \<lparr> bodyInnerText = Some ''Solve the CAPTCHA'', querySelector = (\<lambda>s. False), gridImages = 0 \<rparr>\<close>

definition challenge_page :: page where
  \<open>challenge_page = \<lparr> isClosed = False, evalContext = Some challenge_document \<rparr>\<close>

definition closed_page :: page where
  \<open>closed_page = \<lparr> isClosed = True, evalContext = None \<rparr>\<close>

text \<open>
  Passes of the handoff loop as the code reads them: the operator presses ENTER while the
  challenge is still shown; the operator presses ENTER and the detector call finds the page
  closed.
\<close>

definition pass_still_blocked :: handoff_obs where
  \<open>pass_still_blocked =
     \<lparr> clock = 2000, lastAnswer = None, pageAtCheck = challenge_page, pageAtRecheck = challenge_page \<rparr>\<close>

definition pass_recheck_throws :: handoff_obs where
  \<open>pass_recheck_throws =
     \<lparr> clock = 5000, lastAnswer = None, pageAtCheck = challenge_page, pageAtRecheck = closed_page \<rparr>\<close>

text \<open>
  The module's interface with nothing recorded yet, when the output stream is a pipe and
  when it is a terminal.
\<close>

definition piped_readline :: readline where
  \<open>piped_readline = \<lparr> terminal = False, history = [] \<rparr>\<close>

definition terminal_readline :: readline where
  \<open>terminal_readline = \<lparr> terminal = True, history = [] \<rparr>\<close>

text \<open>An open page on which no challenge is shown.\<close>

definition clear_document :: document where
  \<open>clear_document =
     \<lparr> bodyInnerText = Some ''Search results'', querySelector = (\<lambda>s. False), gridImages = 0 \<rparr>\<close>

definition clear_page :: page where
  \<open>clear_page = \<lparr> isClosed = False, evalContext = Some clear_document \<rparr>\<close>

text \<open>
  The operator enters \<open>skip\<close> at the prompt, once while the challenge is shown and once
  when it is gone.
\<close>

definition skip_typed_blocked :: operator_pass where
  \<open>skip_typed_blocked =
     \<lparr> promptedAt = 2000, typed = ''skip'', pageWhenChecked = challenge_page,
       pageWhenRechecked = challenge_page \<rparr>\<close>

definition skip_typed_clear :: operator_pass where
  \<open>skip_typed_clear =
     \<lparr> promptedAt = 5000, typed = ''skip'', pageWhenChecked = clear_page,
       pageWhenRechecked = clear_page \<rparr>\<close>

text \<open>
  Passes of the stability loop: the DOM has changed and the page is not yet stable; the
  clock has passed the maximum wait of 20000 ms.
\<close>

definition pass_dom_changed :: stability_obs where
  \<open>pass_dom_changed =
     \<lparr> nowAtCondition = 500, closedNow = False,
       stats = Some \<lparr> lastChange = 400, domSize = 1200 \<rparr>,
       nowAtChange = 510, nowAtTest = 520 \<rparr>\<close>

definition pass_after_deadline :: stability_obs where
  \<open>pass_after_deadline =
     \<lparr> nowAtCondition = 20500, closedNow = False, stats = None,
       nowAtChange = 20500, nowAtTest = 20500 \<rparr>\<close>

text \<open>
  A resumed scan of four dorks. The checkpoint on disk says that index 0 is done and that
  the dorks \<open>a\<close> and \<open>c\<close> have been processed; the operator asks for the browser at index 1
  only.
\<close>

definition resumed_disk :: filesystem where
  \<open>resumed_disk =
     \<lparr> files = (\<lambda>p. if p = CHECKPOINT_FILE
                      then Some (JsonText \<lparr> lastIndex = 0, reportContent = Some [],
                                             processedDorks = [''a'', ''c''],
                                             savedAt = Some ''2025-01-01T00:00:00.000Z'' \<rparr>)
                      else None),
       writable = (\<lambda>p. True) \<rparr>\<close>

definition operator_env :: scan_env where
  \<open>operator_env =
     \<lparr> randomEngine = (\<lambda>i. i),
       isoTime = (\<lambda>i. ''2025-01-02T00:00:00.000Z''),
       checkAnswer = (\<lambda>i. if i = 1 then ''S'' else []),
       browserThrows = (\<lambda>i. False) \<rparr>\<close>

definition four_dorks :: \<open>string list\<close> where
  \<open>four_dorks = [''a'', ''b'', ''c'', ''d'']\<close>

section \<open>The dork generator\<close>

lemma str_includes_mid: \<open>str_includes (p @ d @ s) d\<close>
  by (simp add: str_includes_def)

lemma str_includes_end: \<open>str_includes (p @ d) d\<close>
  by (simp add: str_includes_def)

lemma generic_includes: \<open>\<forall>x\<in>set (generateGenericDorks d). str_includes x d\<close>
  unfolding generateGenericDorks_def
  by (simp only: list.set ball_simps str_includes_mid str_includes_end simp_thms)

lemma aem_includes: \<open>\<forall>x\<in>set (generateAEMDorks d). str_includes x d\<close>
  unfolding generateAEMDorks_def
  by (simp only: list.set ball_simps str_includes_mid str_includes_end simp_thms)

lemma cms_includes: \<open>\<forall>x\<in>set (generateCMSDorks d). str_includes x d\<close>
  unfolding generateCMSDorks_def
  by (simp only: list.set ball_simps str_includes_mid str_includes_end simp_thms)

lemma ecommerce_includes: \<open>\<forall>x\<in>set (generateEcommerceDorks d). str_includes x d\<close>
  unfolding generateEcommerceDorks_def
  by (simp only: list.set ball_simps str_includes_mid str_includes_end simp_thms)

lemma foldl_Set_add_set: \<open>set (foldl Set_add acc xs) = set acc \<union> set xs\<close>
  by (induction xs arbitrary: acc) (auto simp: Set_add_def)

lemma foldl_Set_add_distinct: \<open>distinct acc \<Longrightarrow> distinct (foldl Set_add acc xs)\<close>
  by (induction xs arbitrary: acc) (auto simp: Set_add_def)

lemma set_new_Set: \<open>set (new_Set xs) = set xs\<close>
  by (simp add: new_Set_def foldl_Set_add_set)

lemma distinct_new_Set: \<open>distinct (new_Set xs)\<close>
  by (simp add: new_Set_def foldl_Set_add_distinct)

lemma addDorkType_includes:
  \<open>\<forall>x\<in>set acc. str_includes x d \<Longrightarrow> \<forall>x\<in>set (addDorkType d acc t). str_includes x d\<close>
  using generic_includes[of d] aem_includes[of d] cms_includes[of d] ecommerce_includes[of d]
  by (auto simp: addDorkType_def)

lemma foldl_addDorkType_includes:
  \<open>\<forall>x\<in>set acc. str_includes x d \<Longrightarrow> \<forall>x\<in>set (foldl (addDorkType d) acc types). str_includes x d\<close>
proof (induction types arbitrary: acc)
  case Nil
  then show ?case by simp
next
  case (Cons t types)
  from Cons.prems have \<open>\<forall>x\<in>set (addDorkType d acc t). str_includes x d\<close>
    by (rule addDorkType_includes)
  then show ?case using Cons.IH by simp
qed

lemma foldl_addDorkType_mono: \<open>set acc \<subseteq> set (foldl (addDorkType d) acc types)\<close>
proof (induction types arbitrary: acc)
  case Nil
  show ?case by simp
next
  case (Cons t types)
  have \<open>set acc \<subseteq> set (addDorkType d acc t)\<close>
    by (auto simp: addDorkType_def)
  also have \<open>\<dots> \<subseteq> set (foldl (addDorkType d) (addDorkType d acc t) types)\<close>
    by (rule Cons.IH)
  finally show ?case by simp
qed

lemma foldl_addDorkType_generic:
  \<open>1 \<in> set types \<Longrightarrow> set (generateGenericDorks d) \<subseteq> set (foldl (addDorkType d) acc types)\<close>
proof (induction types arbitrary: acc)
  case Nil
  then show ?case by simp
next
  case (Cons t types)
  show ?case
  proof (cases \<open>t = 1\<close>)
    case True
    then have \<open>set (generateGenericDorks d) \<subseteq> set (addDorkType d acc t)\<close>
      by (simp add: addDorkType_def)
    also have \<open>\<dots> \<subseteq> set (foldl (addDorkType d) (addDorkType d acc t) types)\<close>
      by (rule foldl_addDorkType_mono)
    finally show ?thesis by simp
  next
    case False
    with Cons.prems have \<open>1 \<in> set types\<close> by simp
    then show ?thesis using Cons.IH by simp
  qed
qed

lemma foldl_addAltDomain_set:
  \<open>set (foldl addAltDomain acc alts) =
     set acc \<union> (\<Union>alt\<in>set alts.
        {''site:'' @ alt, ''site:'' @ alt @ '' inurl:admin'', ''site:'' @ alt @ '' filetype:log''})\<close>
  by (induction alts arbitrary: acc) (auto simp: addAltDomain_def)

lemma foldl_addPath_set:
  \<open>set (foldl (addPath d) acc ps) = set acc \<union> (\<lambda>p. ''site:'' @ d @ '' inurl:'' @ p) ` set ps\<close>
  by (induction ps arbitrary: acc) (auto simp: addPath_def)

lemma generateDorksList_keeps_types:
  \<open>set (foldl (addDorkType d) [] types) \<subseteq> set (generateDorksList cfg types d)\<close>
  by (auto simp: generateDorksList_def Let_def set_new_Set foldl_addAltDomain_set foldl_addPath_set)

lemma generic_log_template:
  \<open>''site:'' @ d @ '' filetype:log'' \<in> set (generateGenericDorks d)\<close>
  by (simp add: generateGenericDorks_def)

text \<open>
  Claim C3. For every domain \<open>D\<close> and every category selection the list that
  \<open>generateDorksList\<close> returns has no duplicates, and each of its elements contains \<open>D\<close>
  as a substring, or is one of the three probes of a configured alternative domain (and
  contains that domain), or is \<open>site:D inurl:path\<close> for a configured path.
\<close>

theorem generateDorksList_distinct_domain:
  \<open>distinct (generateDorksList cfg types D) \<and>
   (\<forall>x\<in>set (generateDorksList cfg types D).
        str_includes x D
      \<or> (\<exists>alt\<in>set (ALTERNATIVE_DOMAINS cfg).
            x \<in> {''site:'' @ alt, ''site:'' @ alt @ '' inurl:admin'', ''site:'' @ alt @ '' filetype:log''}
            \<and> str_includes x alt)
      \<or> (\<exists>path\<in>set (paths (DOMAIN_SETTINGS cfg)). x = ''site:'' @ D @ '' inurl:'' @ path))\<close>
proof
  show \<open>distinct (generateDorksList cfg types D)\<close>
    by (simp add: generateDorksList_def Let_def distinct_new_Set)
next
  have base: \<open>\<forall>x\<in>set (foldl (addDorkType D) [] types). str_includes x D\<close>
    by (rule foldl_addDorkType_includes) simp
  have probe: \<open>str_includes (''site:'' @ alt) alt\<close> \<open>str_includes (''site:'' @ alt @ s) alt\<close> for alt s
    by (rule str_includes_end, rule str_includes_mid)
  show \<open>\<forall>x\<in>set (generateDorksList cfg types D).
        str_includes x D
      \<or> (\<exists>alt\<in>set (ALTERNATIVE_DOMAINS cfg).
            x \<in> {''site:'' @ alt, ''site:'' @ alt @ '' inurl:admin'', ''site:'' @ alt @ '' filetype:log''}
            \<and> str_includes x alt)
      \<or> (\<exists>path\<in>set (paths (DOMAIN_SETTINGS cfg)). x = ''site:'' @ D @ '' inurl:'' @ path)\<close>
  proof
    fix x assume \<open>x \<in> set (generateDorksList cfg types D)\<close>
    then consider \<open>x \<in> set (foldl (addDorkType D) [] types)\<close>
      | alt where \<open>alt \<in> set (ALTERNATIVE_DOMAINS cfg)\<close>
          \<open>x \<in> {''site:'' @ alt, ''site:'' @ alt @ '' inurl:admin'', ''site:'' @ alt @ '' filetype:log''}\<close>
      | path where \<open>path \<in> set (paths (DOMAIN_SETTINGS cfg))\<close> \<open>x = ''site:'' @ D @ '' inurl:'' @ path\<close>
      by (auto simp: generateDorksList_def Let_def set_new_Set foldl_addAltDomain_set foldl_addPath_set
               split: if_splits)
    then show \<open>str_includes x D
      \<or> (\<exists>alt\<in>set (ALTERNATIVE_DOMAINS cfg).
            x \<in> {''site:'' @ alt, ''site:'' @ alt @ '' inurl:admin'', ''site:'' @ alt @ '' filetype:log''}
            \<and> str_includes x alt)
      \<or> (\<exists>path\<in>set (paths (DOMAIN_SETTINGS cfg)). x = ''site:'' @ D @ '' inurl:'' @ path)\<close>
    proof cases
      case 1
      then show ?thesis using base by blast
    next
      case (2 alt)
      have \<open>str_includes x alt\<close> using 2(2) probe[of alt] by auto
      then show ?thesis using 2 by blast
    next
      case (3 path)
      then show ?thesis by blast
    qed
  qed
qed

text \<open>
  The repository's configuration, the e-commerce category and the configured target: the
  list has no duplicates, its template elements contain \<open>tesla.com\<close>, and the probe of the
  alternative domain \<open>adm.tesla.com\<close> is in it.
\<close>

theorem generateDorksList_distinct_domain_witness:
  \<open>''site:adm.tesla.com inurl:admin'' \<in> set (generateDorksList domain_config_js [4] ''tesla.com'')
   \<and> distinct (generateDorksList domain_config_js [4] ''tesla.com'')
   \<and> (str_includes ''site:adm.tesla.com inurl:admin'' ''tesla.com''
      \<or> (\<exists>alt\<in>set (ALTERNATIVE_DOMAINS domain_config_js).
            ''site:adm.tesla.com inurl:admin''
              \<in> {''site:'' @ alt, ''site:'' @ alt @ '' inurl:admin'', ''site:'' @ alt @ '' filetype:log''}
            \<and> str_includes ''site:adm.tesla.com inurl:admin'' alt)
      \<or> (\<exists>path\<in>set (paths (DOMAIN_SETTINGS domain_config_js)).
            ''site:adm.tesla.com inurl:admin'' = ''site:'' @ ''tesla.com'' @ '' inurl:'' @ path))\<close>
proof -
  have m: \<open>''site:adm.tesla.com inurl:admin'' \<in> set (generateDorksList domain_config_js [4] ''tesla.com'')\<close>
    by code_simp
  from generateDorksList_distinct_domain[of domain_config_js \<open>[4]\<close> \<open>''tesla.com''\<close>] m
  show ?thesis by blast
qed

text \<open>
  Claim C8, as the code has it. \<open>generateDorksList\<close> fails on no input: for every domain
  string, the empty one included, the call returns a duplicate-free list, and when the
  generic category is selected the list contains the template \<open>site:D filetype:log\<close>
  instantiated with whatever the domain string is. The function reads its arguments and the
  module constants only.
\<close>

theorem generateDorksList_never_fails:
  \<open>\<exists>dorks. generateDorksList_completion cfg types domain = Inr dorks \<and> distinct dorks
     \<and> (1 \<in> set types \<longrightarrow> ''site:'' @ domain @ '' filetype:log'' \<in> set dorks)\<close>
proof -
  have \<open>distinct (generateDorksList cfg types domain)\<close>
    by (simp add: generateDorksList_def Let_def distinct_new_Set)
  moreover have \<open>''site:'' @ domain @ '' filetype:log'' \<in> set (generateDorksList cfg types domain)\<close>
    if \<open>1 \<in> set types\<close>
    using that generic_log_template[of domain] foldl_addDorkType_generic[of types domain \<open>[]\<close>]
      generateDorksList_keeps_types[of domain types cfg]
    by blast
  ultimately show ?thesis
    by (simp add: generateDorksList_completion_def)
qed

theorem generateDorksList_never_fails_witness:
  \<open>1 \<in> set [1, 2 :: nat] \<and>
   (\<exists>dorks. generateDorksList_completion domain_config_js [1, 2] ''example.com'' = Inr dorks
      \<and> distinct dorks \<and> ''site:example.com filetype:log'' \<in> set dorks)\<close>
  using generateDorksList_never_fails[of domain_config_js \<open>[1, 2]\<close> \<open>''example.com''\<close>]
  by simp

text \<open>
  The claim as stated fails at the empty domain string: the call does not fail, and the
  list it returns holds the generic templates with nothing between \<open>site:\<close> and the rest.
\<close>

theorem generateDorksList_empty_domain_counterexample:
  \<open>\<not> isl (generateDorksList_completion domain_config_js [1] [])
   \<and> ''site: filetype:log'' \<in> set (generateDorksList domain_config_js [1] [])\<close>
proof -
  have \<open>''site: filetype:log'' \<in> set (generateDorksList domain_config_js [1] [])\<close>
    using generic_log_template[of \<open>[]\<close>] foldl_addDorkType_generic[of \<open>[1]\<close> \<open>[]\<close> \<open>[]\<close>]
      generateDorksList_keeps_types[of \<open>[]\<close> \<open>[1]\<close> domain_config_js]
    by auto
  then show ?thesis
    by (simp add: generateDorksList_completion_def)
qed

section \<open>The checkpoint store\<close>

lemma loadCheckpoint_after_write:
  \<open>writable fs path \<Longrightarrow>
   loadCheckpoint (saveCheckpoint fs path i content dks now) path =
     \<lparr> lastIndex = i, reportContent = Some content, processedDorks = dks, savedAt = Some now \<rparr>\<close>
  by (simp add: loadCheckpoint_def saveCheckpoint_def fs_writeFile_def fs_pathExists_def
        fs_readFile_def JSON_stringify_def)

lemma saveCheckpoint_failed_write:
  \<open>\<not> writable fs path \<Longrightarrow> saveCheckpoint fs path i content dks now = fs\<close>
  by (simp add: saveCheckpoint_def fs_writeFile_def)

text \<open>
  Claim C4, as the code has it. For every path at which the write succeeds, every index,
  report content and processed list, loading right after saving gives back the index as
  \<open>lastIndex\<close> and the processed list, element for element (so also as a set).
\<close>

theorem checkpoint_roundtrip:
  \<open>writable fs path \<Longrightarrow>
   lastIndex (loadCheckpoint (saveCheckpoint fs path i content dks now) path) = i
   \<and> processedDorks (loadCheckpoint (saveCheckpoint fs path i content dks now) path) = dks
   \<and> set (processedDorks (loadCheckpoint (saveCheckpoint fs path i content dks now) path))
       = set dks\<close>
  by (simp add: loadCheckpoint_after_write)

theorem checkpoint_roundtrip_witness:
  \<open>writable writable_disk CHECKPOINT_FILE
   \<and> lastIndex (loadCheckpoint
        (saveCheckpoint writable_disk CHECKPOINT_FILE 7 [] [''site:tesla.com filetype:log''] ''2025-01-01T00:00:00.000Z'')
        CHECKPOINT_FILE) = 7
   \<and> processedDorks (loadCheckpoint
        (saveCheckpoint writable_disk CHECKPOINT_FILE 7 [] [''site:tesla.com filetype:log''] ''2025-01-01T00:00:00.000Z'')
        CHECKPOINT_FILE) = [''site:tesla.com filetype:log'']\<close>
proof -
  have w: \<open>writable writable_disk CHECKPOINT_FILE\<close>
    by (simp add: writable_disk_def)
  from checkpoint_roundtrip[OF w, of 7 \<open>[]\<close> \<open>[''site:tesla.com filetype:log'']\<close> \<open>''2025-01-01T00:00:00.000Z''\<close>] w
  show ?thesis by simp
qed

text \<open>
  The claim as stated, for every path, fails where the write fails: \<open>saveCheckpoint\<close>
  catches the error, nothing is stored, and \<open>loadCheckpoint\<close> returns the sentinel with
  \<open>lastIndex = -1\<close> and no processed dork.
\<close>

theorem checkpoint_roundtrip_counterexample:
  \<open>lastIndex (loadCheckpoint
      (saveCheckpoint unwritable_disk CHECKPOINT_FILE 7 [] [''site:tesla.com filetype:log''] ''2025-01-01T00:00:00.000Z'')
      CHECKPOINT_FILE) = - 1
   \<and> processedDorks (loadCheckpoint
      (saveCheckpoint unwritable_disk CHECKPOINT_FILE 7 [] [''site:tesla.com filetype:log''] ''2025-01-01T00:00:00.000Z'')
      CHECKPOINT_FILE) = []\<close>
  by (simp add: saveCheckpoint_def fs_writeFile_def unwritable_disk_def loadCheckpoint_def
        fs_pathExists_def emptyCheckpoint_def)

section \<open>The challenge detector\<close>

text \<open>
  Claim C2. On an open page, when the evaluation in the page throws,
  \<open>detectCaptchaOrBlock\<close> returns \<open>true\<close>.
\<close>

theorem detect_evaluation_error_is_detected:
  \<open>\<not> isClosed p \<Longrightarrow> page_evaluate p detectInPage = Inl e \<Longrightarrow>
   detectCaptchaOrBlock (Some p) = Inr True\<close>
  by (simp add: detectCaptchaOrBlock_def)

theorem detect_evaluation_error_is_detected_witness:
  \<open>\<not> isClosed page_evaluation_fails
   \<and> page_evaluate page_evaluation_fails detectInPage = Inl EvaluationFailed
   \<and> detectCaptchaOrBlock (Some page_evaluation_fails) = Inr True\<close>
proof -
  have a: \<open>\<not> isClosed page_evaluation_fails\<close>
    by (simp add: page_evaluation_fails_def)
  have b: \<open>page_evaluate page_evaluation_fails detectInPage = Inl EvaluationFailed\<close>
    by (simp add: page_evaluation_fails_def page_evaluate_def)
  from detect_evaluation_error_is_detected[OF a b] a b show ?thesis by simp
qed

text \<open>
  Claim C10. On an open page whose document has no body, the function evaluated in the
  page reports \<open>detected = false\<close> with the reason that the body is unavailable, whatever
  the selectors match and however many image tiles there are, and
  \<open>detectCaptchaOrBlock\<close> returns \<open>false\<close>.
\<close>

theorem detect_without_body_is_false:
  \<open>\<not> isClosed p \<Longrightarrow> evalContext p = Some doc \<Longrightarrow> bodyInnerText doc = None \<Longrightarrow>
   detectCaptchaOrBlock (Some p) = Inr False
   \<and> detectInPage doc = \<lparr> detected = False, reason = Some BodyUnavailable \<rparr>\<close>
  by (simp add: detectCaptchaOrBlock_def page_evaluate_def detectInPage_def)

theorem detect_without_body_is_false_witness:
  \<open>\<not> isClosed page_without_body
   \<and> evalContext page_without_body = Some document_without_body
   \<and> bodyInnerText document_without_body = None
   \<and> querySelector document_without_body ''div.g-recaptcha''
   \<and> gridImages document_without_body > 4
   \<and> detectCaptchaOrBlock (Some page_without_body) = Inr False\<close>
proof -
  have a: \<open>\<not> isClosed page_without_body\<close>
    and b: \<open>evalContext page_without_body = Some document_without_body\<close>
    and c: \<open>bodyInnerText document_without_body = None\<close>
    by (simp_all add: page_without_body_def document_without_body_def)
  from detect_without_body_is_false[OF a b c] a b c show ?thesis
    by (simp add: document_without_body_def)
qed

section \<open>The page stability waiter\<close>

lemma stabilityLoop_continue:
  \<open>stabilityLoop st sb mw lct ds pre = None \<Longrightarrow>
   \<exists>lct' ds'. \<forall>ext. stabilityLoop st sb mw lct ds (pre @ ext) = stabilityLoop st sb mw lct' ds' ext\<close>
proof (induction pre arbitrary: lct ds)
  case Nil
  show ?case by auto
next
  case (Cons ob pre)
  from Cons.prems obtain s where c: \<open>nowAtCondition ob - st < mw\<close> \<open>\<not> closedNow ob\<close> \<open>stats ob = Some s\<close>
    by (auto split: if_splits option.splits)
  define lct1 where \<open>lct1 = (if domSize s \<noteq> ds then nowAtChange ob else lct)\<close>
  define ds1 where \<open>ds1 = (if domSize s \<noteq> ds then domSize s else ds)\<close>
  from Cons.prems c have t: \<open>\<not> sb \<le> nowAtTest ob - lct1\<close> and r: \<open>stabilityLoop st sb mw lct1 ds1 pre = None\<close>
    by (auto simp: lct1_def ds1_def Let_def split: if_splits)
  from Cons.IH[OF r] obtain lct' ds' where
    \<open>\<forall>ext. stabilityLoop st sb mw lct1 ds1 (pre @ ext) = stabilityLoop st sb mw lct' ds' ext\<close>
    by blast
  moreover have \<open>stabilityLoop st sb mw lct ds ((ob # pre) @ ext) = stabilityLoop st sb mw lct1 ds1 (pre @ ext)\<close> for ext
    using c t by (simp add: lct1_def ds1_def Let_def)
  ultimately show ?case by auto
qed

lemma stabilityLoop_timeout:
  assumes \<open>stabilityLoop st sb mw lct ds pre = None\<close> and \<open>mw \<le> nowAtCondition ob - st\<close>
  shows \<open>stabilityLoop st sb mw lct ds (pre @ ob # rest) = Some (Inr True)\<close>
proof -
  from stabilityLoop_continue[OF assms(1)] obtain lct' ds' where
    \<open>stabilityLoop st sb mw lct ds (pre @ ob # rest) = stabilityLoop st sb mw lct' ds' (ob # rest)\<close>
    by blast
  then show ?thesis using assms(2) by simp
qed

lemma stabilityLoop_error:
  \<open>stabilityLoop st sb mw lct ds obs = Some (Inl e) \<Longrightarrow> \<exists>ob\<in>set obs. closedNow ob\<close>
proof (induction obs arbitrary: lct ds)
  case Nil
  then show ?case by simp
next
  case (Cons ob obs)
  show ?case
  proof (cases \<open>closedNow ob\<close>)
    case True
    then show ?thesis by simp
  next
    case False
    with Cons.prems obtain lct' ds' where \<open>stabilityLoop st sb mw lct' ds' obs = Some (Inl e)\<close>
      by (auto simp: Let_def split: if_splits option.splits)
    from Cons.IH[OF this] show ?thesis by simp
  qed
qed

lemma stabilityLoop_false:
  \<open>stabilityLoop st sb mw lct ds obs = Some (Inr False) \<Longrightarrow> \<exists>ob\<in>set obs. stats ob = None\<close>
proof (induction obs arbitrary: lct ds)
  case Nil
  then show ?case by simp
next
  case (Cons ob obs)
  show ?case
  proof (cases \<open>stats ob\<close>)
    case None
    then show ?thesis by simp
  next
    case (Some st')
    with Cons.prems obtain lct' ds' where \<open>stabilityLoop st sb mw lct' ds' obs = Some (Inr False)\<close>
      by (auto simp: Let_def split: if_splits)
    from Cons.IH[OF this] show ?thesis by simp
  qed
qed

text \<open>
  Claim C5. While \<open>waitForPageStability\<close> is still waiting after the passes \<open>pre\<close> (the
  page was open at entry, nothing was thrown, no stable window was seen), a loop condition
  that reads a clock at or past \<open>startTime + maxWaitTime\<close> makes it return \<open>true\<close>. It
  throws only when the page handle is null or closed at entry, or \<open>page.isClosed()\<close> holds
  in one of the passes. And it returns \<open>false\<close> only when an evaluation in the page has
  thrown, never because of the time.
\<close>

theorem waitForPageStability_timeout_returns_true:
  \<open>(waitForPageStability pg stableTime maxWaitTime startTime pre = None \<longrightarrow>
      maxWaitTime \<le> nowAtCondition ob - startTime \<longrightarrow>
      waitForPageStability pg stableTime maxWaitTime startTime (pre @ ob # rest) = Some (Inr True))
   \<and> (waitForPageStability pg stableTime maxWaitTime startTime obs = Some (Inl e) \<longrightarrow>
        pg = None \<or> (\<exists>p. pg = Some p \<and> isClosed p) \<or> (\<exists>ob\<in>set obs. closedNow ob))
   \<and> (waitForPageStability pg stableTime maxWaitTime startTime obs = Some (Inr False) \<longrightarrow>
        (\<exists>p. pg = Some p \<and> \<not> isClosed p \<and> evalContext p = None) \<or> (\<exists>ob\<in>set obs. stats ob = None))\<close>
proof (intro conjI impI)
  assume n: \<open>waitForPageStability pg stableTime maxWaitTime startTime pre = None\<close>
    and d: \<open>maxWaitTime \<le> nowAtCondition ob - startTime\<close>
  from n obtain p where p: \<open>pg = Some p\<close> \<open>\<not> isClosed p\<close> \<open>page_evaluate p (\<lambda>doc. ()) = Inr ()\<close>
    and l: \<open>stabilityLoop startTime stableTime maxWaitTime startTime 0 pre = None\<close>
    by (auto simp: waitForPageStability_def split: option.splits if_splits sum.splits)
  from stabilityLoop_timeout[OF l d] p
  show \<open>waitForPageStability pg stableTime maxWaitTime startTime (pre @ ob # rest) = Some (Inr True)\<close>
    by (simp add: waitForPageStability_def)
next
  assume \<open>waitForPageStability pg stableTime maxWaitTime startTime obs = Some (Inl e)\<close>
  then show \<open>pg = None \<or> (\<exists>p. pg = Some p \<and> isClosed p) \<or> (\<exists>ob\<in>set obs. closedNow ob)\<close>
    by (auto simp: waitForPageStability_def split: option.splits if_splits sum.splits
             dest: stabilityLoop_error)
next
  assume \<open>waitForPageStability pg stableTime maxWaitTime startTime obs = Some (Inr False)\<close>
  then show \<open>(\<exists>p. pg = Some p \<and> \<not> isClosed p \<and> evalContext p = None) \<or> (\<exists>ob\<in>set obs. stats ob = None)\<close>
    by (auto simp: waitForPageStability_def page_evaluate_def split: option.splits if_splits sum.splits
             dest: stabilityLoop_false)
qed

theorem waitForPageStability_timeout_returns_true_witness:
  \<open>waitForPageStability (Some challenge_page) 3000 20000 0 [pass_dom_changed] = None
   \<and> (20000 :: int) \<le> nowAtCondition pass_after_deadline - 0
   \<and> waitForPageStability (Some challenge_page) 3000 20000 0
         ([pass_dom_changed] @ pass_after_deadline # []) = Some (Inr True)
   \<and> waitForPageStability (Some closed_page) 3000 20000 0 [] = Some (Inl PageNotAvailable)
   \<and> isClosed closed_page
   \<and> waitForPageStability (Some page_evaluation_fails) 3000 20000 0 [] = Some (Inr False)
   \<and> evalContext page_evaluation_fails = None\<close>
proof -
  have a: \<open>waitForPageStability (Some challenge_page) 3000 20000 0 [pass_dom_changed] = None\<close>
    by (simp add: waitForPageStability_def challenge_page_def page_evaluate_def pass_dom_changed_def)
  have b: \<open>(20000 :: int) \<le> nowAtCondition pass_after_deadline - 0\<close>
    by (simp add: pass_after_deadline_def)
  have c: \<open>waitForPageStability (Some closed_page) 3000 20000 0 [] = Some (Inl PageNotAvailable)\<close>
    by (simp add: waitForPageStability_def closed_page_def)
  have d: \<open>waitForPageStability (Some page_evaluation_fails) 3000 20000 0 [] = Some (Inr False)\<close>
    by (simp add: waitForPageStability_def page_evaluation_fails_def page_evaluate_def)
  from waitForPageStability_timeout_returns_true
         [of \<open>Some challenge_page\<close> 3000 20000 0 \<open>[pass_dom_changed]\<close> pass_after_deadline \<open>[]\<close>] a b
  have e: \<open>waitForPageStability (Some challenge_page) 3000 20000 0
         ([pass_dom_changed] @ pass_after_deadline # []) = Some (Inr True)\<close>
    by blast
  from waitForPageStability_timeout_returns_true
         [of \<open>Some closed_page\<close> 3000 20000 0 _ _ _ \<open>[]\<close> PageNotAvailable] c
  have f: \<open>isClosed closed_page\<close>
    by auto
  from waitForPageStability_timeout_returns_true
         [of \<open>Some page_evaluation_fails\<close> 3000 20000 0 _ _ _ \<open>[]\<close>] d
  have g: \<open>evalContext page_evaluation_fails = None\<close>
    by auto
  from a b c d e f g show ?thesis by blast
qed

section \<open>The human handoff\<close>

lemma handoffLoop_continue:
  \<open>handoffLoop st t False pre = None \<Longrightarrow> handoffLoop st t False (pre @ ext) = handoffLoop st t False ext\<close>
proof (induction pre)
  case Nil
  show ?case by simp
next
  case (Cons ob pre)
  from Cons.prems have c: \<open>clock ob - st < t\<close> \<open>\<not> isSkip (lastAnswer ob)\<close> \<open>\<not> isClosed (pageAtCheck ob)\<close>
    by (auto split: if_splits)
  with Cons.prems have d: \<open>detectCaptchaOrBlock (Some (pageAtRecheck ob)) = Inr True\<close>
    and r: \<open>handoffLoop st t False pre = None\<close>
    by (auto split: sum.splits if_splits)
  show ?case using c d Cons.IH[OF r] by simp
qed

lemma waitForCaptchaResolution_awaiting:
  \<open>waitForCaptchaResolution pg t a pd st pre = None \<Longrightarrow>
   handoffLoop st t False pre = None \<and>
   waitForCaptchaResolution pg t a pd st (pre @ ext) = handoffLoop st t False ext\<close>
  by (auto simp: waitForCaptchaResolution_def Let_def handoffLoop_continue
           split: option.splits if_splits sum.splits)

text \<open>
  Claim C6. While the handoff is waiting for the operator after the passes \<open>pre\<close>, a pass
  in which the operator did not skip, the page is open, and the detector call throws makes
  \<open>waitForCaptchaResolution\<close> return \<open>true\<close>. At the initial check a throwing detector
  call is treated as a detected challenge: the function enters the waiting loop, and
  without any pass it has not returned.
\<close>

theorem recheck_error_treated_as_resolved:
  \<open>(waitForCaptchaResolution pg t a pd st pre = None \<longrightarrow>
      clock ob - st < t \<longrightarrow> \<not> isSkip (lastAnswer ob) \<longrightarrow> \<not> isClosed (pageAtCheck ob) \<longrightarrow>
      detectCaptchaOrBlock (Some (pageAtRecheck ob)) = Inl e \<longrightarrow>
      waitForCaptchaResolution pg t a pd st (pre @ ob # rest) = Some True)
   \<and> (pg = Some p \<longrightarrow> \<not> isClosed p \<longrightarrow> detectCaptchaOrBlock (Some pd) = Inl e' \<longrightarrow>
        waitForCaptchaResolution pg t a pd st obs = handoffLoop st t False obs
        \<and> waitForCaptchaResolution pg t a pd st [] = None)\<close>
proof (intro conjI impI)
  assume w: \<open>waitForCaptchaResolution pg t a pd st pre = None\<close>
    and c: \<open>clock ob - st < t\<close> \<open>\<not> isSkip (lastAnswer ob)\<close> \<open>\<not> isClosed (pageAtCheck ob)\<close>
    and d: \<open>detectCaptchaOrBlock (Some (pageAtRecheck ob)) = Inl e\<close>
  from waitForCaptchaResolution_awaiting[OF w, of \<open>ob # rest\<close>]
  have \<open>waitForCaptchaResolution pg t a pd st (pre @ ob # rest) = handoffLoop st t False (ob # rest)\<close>
    by simp
  also have \<open>\<dots> = Some True\<close>
    using c d by simp
  finally show \<open>waitForCaptchaResolution pg t a pd st (pre @ ob # rest) = Some True\<close> .
next
  assume \<open>pg = Some p\<close> \<open>\<not> isClosed p\<close> \<open>detectCaptchaOrBlock (Some pd) = Inl e'\<close>
  then show \<open>waitForCaptchaResolution pg t a pd st obs = handoffLoop st t False obs\<close>
    by (simp add: waitForCaptchaResolution_def split: sum.splits)
next
  assume \<open>pg = Some p\<close> \<open>\<not> isClosed p\<close> \<open>detectCaptchaOrBlock (Some pd) = Inl e'\<close>
  then show \<open>waitForCaptchaResolution pg t a pd st [] = None\<close>
    by (simp add: waitForCaptchaResolution_def split: sum.splits)
qed

theorem recheck_error_treated_as_resolved_witness:
  \<open>waitForCaptchaResolution (Some challenge_page) 60000 True challenge_page 0 [pass_still_blocked] = None
   \<and> detectCaptchaOrBlock (Some (pageAtRecheck pass_recheck_throws)) = Inl PageNotAvailable
   \<and> waitForCaptchaResolution (Some challenge_page) 60000 True challenge_page 0
         ([pass_still_blocked] @ pass_recheck_throws # []) = Some True
   \<and> detectCaptchaOrBlock (Some closed_page) = Inl PageNotAvailable
   \<and> waitForCaptchaResolution (Some challenge_page) 60000 True closed_page 0 [] = None\<close>
proof -
  have blocked: \<open>detectCaptchaOrBlock (Some challenge_page) = Inr True\<close>
    by code_simp
  have a: \<open>waitForCaptchaResolution (Some challenge_page) 60000 True challenge_page 0 [pass_still_blocked] = None\<close>
    using blocked
    by (simp add: waitForCaptchaResolution_def flashBrowserWindow_def pass_still_blocked_def isSkip_def
          challenge_page_def)
  have b: \<open>clock pass_recheck_throws - 0 < 60000\<close> \<open>\<not> isSkip (lastAnswer pass_recheck_throws)\<close>
    \<open>\<not> isClosed (pageAtCheck pass_recheck_throws)\<close>
    by (simp_all add: pass_recheck_throws_def isSkip_def challenge_page_def)
  have c: \<open>detectCaptchaOrBlock (Some (pageAtRecheck pass_recheck_throws)) = Inl PageNotAvailable\<close>
    by (simp add: pass_recheck_throws_def detectCaptchaOrBlock_def closed_page_def)
  have d: \<open>\<not> isClosed challenge_page\<close>
    by (simp add: challenge_page_def)
  have e: \<open>detectCaptchaOrBlock (Some closed_page) = Inl PageNotAvailable\<close>
    by (simp add: detectCaptchaOrBlock_def closed_page_def)
  from recheck_error_treated_as_resolved
         [of \<open>Some challenge_page\<close> 60000 True challenge_page 0 \<open>[pass_still_blocked]\<close>
             pass_recheck_throws PageNotAvailable \<open>[]\<close>]
       recheck_error_treated_as_resolved
         [of \<open>Some challenge_page\<close> 60000 True closed_page 0 _ _ _ _ challenge_page PageNotAvailable \<open>[]\<close>]
       a b c d e
  show ?thesis by blast
qed

text \<open>
  A pass in which the loop finds the skip token at the front of the history returns
  \<open>false\<close> in that pass: the timeout has not been reached, and neither the page nor the
  detector nor any later pass is consulted.
\<close>

lemma skip_read_from_history:
  assumes \<open>waitForCaptchaResolution pg t a pd st pre = None\<close>
    and \<open>clock ob - st < t\<close>
    and \<open>lastAnswer ob = Some answer\<close> and \<open>toLowerCase answer = ''skip''\<close>
  shows \<open>waitForCaptchaResolution pg t a pd st (pre @ ob # rest) = Some False\<close>
proof -
  from assms(4) have \<open>answer \<noteq> []\<close>
    by (cases answer) simp_all
  with assms(3,4) have \<open>isSkip (lastAnswer ob)\<close>
    by (simp add: isSkip_def)
  with waitForCaptchaResolution_awaiting[OF assms(1), of \<open>ob # rest\<close>] assms(2)
  show ?thesis by simp
qed

lemma terminal_rl_line: \<open>terminal (rl_line rl line) = terminal rl\<close>
  by (simp add: rl_line_def Let_def)

lemma terminal_records_line:
  \<open>terminal rl \<Longrightarrow> \<not> isBlank line \<Longrightarrow> historyFront (rl_line rl line) = Some line\<close>
  by (cases \<open>history rl\<close>) (auto simp: rl_line_def historyFront_def Let_def)

lemma piped_records_nothing: \<open>\<not> terminal rl \<Longrightarrow> rl_line rl line = rl\<close>
  by (simp add: rl_line_def)

lemma blank_is_not_skip: \<open>isBlank line \<Longrightarrow> toLowerCase line \<noteq> ''skip''\<close>
proof (cases line)
  case Nil
  then show ?thesis by simp
next
  case (Cons c cs)
  assume \<open>isBlank line\<close>
  with Cons have \<open>c \<in> set whiteSpace1 \<or> c = CHR 0xC2 \<or> (c, take 2 cs) \<in> set whiteSpace3\<close>
    by (auto split: if_splits)
  then have \<open>c \<in> {CHR 0x09, CHR 0x0A, CHR 0x0B, CHR 0x0C, CHR 0x0D, CHR 0x20,
                    CHR 0xC2, CHR 0xE1, CHR 0xE2, CHR 0xE3, CHR 0xEF}\<close>
    by (auto simp: whiteSpace1_def whiteSpace3_def)
  then have \<open>hd (toLowerCase (c # cs)) \<noteq> CHR ''s''\<close>
    by (auto simp: toLowerCase_char_def)
  with Cons show ?thesis
    by (cases \<open>toLowerCase (c # cs)\<close>) auto
qed

lemma readPasses_append:
  \<open>readPasses rl (pre @ ps) =
     readPasses rl pre @ readPasses (foldl (\<lambda>r p. waitForUserConfirmation r (typed p)) rl pre) ps\<close>
  by (induction pre arbitrary: rl) (simp_all add: Let_def)

lemma terminal_after_passes:
  \<open>terminal (foldl (\<lambda>r p. waitForUserConfirmation r (typed p)) rl pre) = terminal rl\<close>
  by (induction pre arbitrary: rl) (simp_all add: waitForUserConfirmation_def terminal_rl_line)

text \<open>
  With the interface in terminal mode, a pass in which the operator enters the skip token
  (in any letter case) makes the handoff return \<open>false\<close> in that pass.
\<close>

lemma skip_typed_on_terminal:
  assumes \<open>terminal rl\<close>
    and \<open>waitForCaptchaResolution_rl rl pg t a pd st pre = None\<close>
    and \<open>promptedAt p - st < t\<close>
    and \<open>toLowerCase (typed p) = ''skip''\<close>
  shows \<open>waitForCaptchaResolution_rl rl pg t a pd st (pre @ p # rest) = Some False\<close>
proof -
  define rl1 where \<open>rl1 = foldl (\<lambda>r p. waitForUserConfirmation r (typed p)) rl pre\<close>
  define rl2 where \<open>rl2 = waitForUserConfirmation rl1 (typed p)\<close>
  define ob where \<open>ob = \<lparr> clock = promptedAt p, lastAnswer = historyFront rl2,
    pageAtCheck = pageWhenChecked p, pageAtRecheck = pageWhenRechecked p \<rparr>\<close>
  have split: \<open>readPasses rl (pre @ p # rest) = readPasses rl pre @ ob # readPasses rl2 rest\<close>
    by (simp add: readPasses_append Let_def rl1_def rl2_def ob_def)
  have \<open>terminal rl1\<close>
    using assms(1) by (simp add: rl1_def terminal_after_passes)
  moreover have \<open>\<not> isBlank (typed p)\<close>
    using assms(4) blank_is_not_skip by blast
  ultimately have front: \<open>lastAnswer ob = Some (typed p)\<close>
    by (simp add: ob_def rl2_def waitForUserConfirmation_def terminal_records_line)
  have intime: \<open>clock ob - st < t\<close>
    using assms(3) by (simp add: ob_def)
  have waiting: \<open>waitForCaptchaResolution pg t a pd st (readPasses rl pre) = None\<close>
    using assms(2) by (simp add: waitForCaptchaResolution_rl_def)
  have \<open>waitForCaptchaResolution pg t a pd st (readPasses rl pre @ ob # readPasses rl2 rest) = Some False\<close>
    by (rule skip_read_from_history[OF waiting intime front assms(4)])
  then show ?thesis
    by (simp add: waitForCaptchaResolution_rl_def split)
qed

text \<open>
  Claim C7 says that the skip token issued by the operator while the handoff is waiting
  makes \<open>waitForCaptchaResolution\<close> return \<open>false\<close> within that pass. The prompt of the
  loop says so too. With the interface not in terminal mode the code does not do it: the
  operator enters \<open>skip\<close> while the challenge is shown, nothing is recorded in the history,
  the loop goes on to the page and the detector and prompts again; when the operator
  enters \<open>skip\<close> once more and the challenge is gone, the function returns \<open>true\<close>. The
  same two lines on an interface in terminal mode give \<open>false\<close> at the first of them.
\<close>

theorem skip_typed_without_terminal_is_ignored:
  \<open>waitForCaptchaResolution_rl piped_readline (Some challenge_page) 60000 True challenge_page 0
       [skip_typed_blocked] = None
   \<and> waitForCaptchaResolution_rl piped_readline (Some challenge_page) 60000 True challenge_page 0
       [skip_typed_blocked, skip_typed_clear] = Some True
   \<and> waitForCaptchaResolution_rl terminal_readline (Some challenge_page) 60000 True challenge_page 0
       [skip_typed_blocked, skip_typed_clear] = Some False\<close>
proof (intro conjI)
  show \<open>waitForCaptchaResolution_rl piped_readline (Some challenge_page) 60000 True challenge_page 0
       [skip_typed_blocked] = None\<close>
    by code_simp
  show \<open>waitForCaptchaResolution_rl piped_readline (Some challenge_page) 60000 True challenge_page 0
       [skip_typed_blocked, skip_typed_clear] = Some True\<close>
    by code_simp
  show \<open>waitForCaptchaResolution_rl terminal_readline (Some challenge_page) 60000 True challenge_page 0
       [skip_typed_blocked, skip_typed_clear] = Some False\<close>
    by code_simp
qed

section \<open>The scan driver\<close>

lemma scan_loop_end:
  \<open>\<not> i < length dorks \<Longrightarrow> scan_loop env dorks c i s = s\<close>
  by (subst scan_loop.simps) simp

lemma scan_loop_next:
  \<open>i < length dorks \<Longrightarrow>
   scan_loop env dorks c i s = scan_loop env dorks c (i + 1) (scan_step env dorks c i s)\<close>
  by (subst scan_loop.simps) simp

lemma scan_loop_rule:
  assumes \<open>P i s\<close>
    and \<open>\<And>i s. i < length dorks \<Longrightarrow> P i s \<Longrightarrow> P (i + 1) (scan_step env dorks c i s)\<close>
  shows \<open>P (max i (length dorks)) (scan_loop env dorks c i s)\<close>
  using assms(1)
proof (induction \<open>length dorks - i\<close> arbitrary: i s)
  case 0
  then have \<open>\<not> i < length dorks\<close> by simp
  with 0 show ?case by (simp add: max_def scan_loop_end)
next
  case (Suc k)
  then have lt: \<open>i < length dorks\<close> by simp
  from assms(2)[OF lt Suc.prems] have \<open>P (i + 1) (scan_step env dorks c i s)\<close> .
  moreover from Suc(2) have \<open>k = length dorks - (i + 1)\<close> by simp
  ultimately have \<open>P (max (i + 1) (length dorks)) (scan_loop env dorks c (i + 1) (scan_step env dorks c i s))\<close>
    using Suc(1) by blast
  moreover have \<open>max (i + 1) (length dorks) = max i (length dorks)\<close> using lt by simp
  ultimately show ?case using lt by (simp add: scan_loop_next)
qed

lemma key_bounds: \<open>9 * event_index e \<le> event_key e \<and> event_key e < 9 * event_index e + 9\<close>
  by (cases e) (simp_all add: event_key_def)

lemma key_before: \<open>event_index e < i \<Longrightarrow> event_index e' = i \<Longrightarrow> event_key e < event_key e'\<close>
  using key_bounds[of e] key_bounds[of e'] by simp

lemma step_skip:
  \<open>dorks ! i \<in> set (processed s) \<Longrightarrow>
   scan_step env dorks c i s = s\<lparr>trace := trace s @ [SkipProcessed i]\<rparr>\<close>
  by (simp add: scan_step_def)

lemma step_process:
  assumes \<open>dorks ! i \<notin> set (processed s)\<close>
  shows \<open>trace (scan_step env dorks c i s) = trace s @ process_block env dorks i\<close>
    and \<open>processed (scan_step env dorks c i s) = processed s @ [dorks ! i]\<close>
    and \<open>stats_manuallyChecked (scanStats (scan_step env dorks c i s)) = stats_manuallyChecked (scanStats s)\<close>
    and \<open>results (scan_step env dorks c i s) = results s @ [fst (processDorkDisplayMode env (dorks ! i) i)]\<close>
  using assms
  by (simp_all add: scan_step_def processDorkDisplayMode_def Let_def MANUAL_VALIDATION_MODE_def
        SAVE_CHECKPOINT_def displayOnlyDorkInfo_def truthy_def verification_events_def pause_events_def
        process_block_def)

lemma result_has_no_flag: \<open>result_manuallyChecked (fst (processDorkDisplayMode env d i)) = None\<close>
  by (simp add: processDorkDisplayMode_def Let_def displayOnlyDorkInfo_def)

lemma block_members:
  \<open>e \<in> set (process_block env dorks i) \<Longrightarrow>
   e \<in> processing_events i \<or> e = CheckpointSave i \<or> e = Pause i\<close>
  by (auto simp: process_block_def verification_events_def openBrowserForUrl_def pause_events_def
        processing_events_def split: if_splits)

lemma block_index: \<open>e \<in> set (process_block env dorks i) \<Longrightarrow> event_index e = i\<close>
  by (auto dest!: block_members simp: processing_events_def)

lemma block_has: \<open>DorkDone i \<in> set (process_block env dorks i)\<close>
  \<open>CheckpointSave i \<in> set (process_block env dorks i)\<close>
  by (simp_all add: process_block_def)

lemma block_browser:
  \<open>BrowserOpened j \<in> set (process_block env dorks i) \<Longrightarrow>
   BrowserClosed j \<in> set (process_block env dorks i) \<or> BrowserError j \<in> set (process_block env dorks i)\<close>
  by (auto simp: process_block_def verification_events_def openBrowserForUrl_def pause_events_def
        split: if_splits)

lemma block_in_order: \<open>in_order (process_block env dorks i)\<close>
  by (simp add: in_order_def process_block_def verification_events_def openBrowserForUrl_def
        pause_events_def event_key_def)

lemma in_order_append:
  \<open>in_order (xs @ ys) \<longleftrightarrow> in_order xs \<and> in_order ys \<and> (\<forall>x\<in>set xs. \<forall>y\<in>set ys. event_key x < event_key y)\<close>
  by (simp add: in_order_def sorted_wrt_append)

lemma order_inv_step:
  assumes \<open>order_inv i s\<close>
  shows \<open>order_inv (i + 1) (scan_step env dorks c i s)\<close>
proof (cases \<open>dorks ! i \<in> set (processed s)\<close>)
  case True
  have \<open>\<forall>x\<in>set (trace s). event_key x < event_key (SkipProcessed i)\<close>
    using assms by (auto simp: order_inv_def intro: key_before)
  then show ?thesis using assms
    by (auto simp: step_skip[OF True] order_inv_def in_order_def sorted_wrt_append)
next
  case False
  note tr = step_process(1)[OF False, of env c]
  have a: \<open>\<forall>x\<in>set (trace s). \<forall>y\<in>set (process_block env dorks i). event_key x < event_key y\<close>
    using assms by (auto simp: order_inv_def dest!: block_index intro: key_before)
  have b: \<open>\<forall>e\<in>set (process_block env dorks i). event_index e < i + 1\<close>
    by (auto dest!: block_index)
  have c: \<open>CheckpointSave j \<in> set (process_block env dorks i) \<Longrightarrow> DorkDone j \<in> set (process_block env dorks i)\<close> for j
    using block_index[of \<open>CheckpointSave j\<close> env dorks i] block_has(1)[of i env dorks] by simp
  show ?thesis
    unfolding order_inv_def tr
  proof (intro conjI)
    show \<open>in_order (trace s @ process_block env dorks i)\<close>
      using assms a by (simp add: in_order_append block_in_order order_inv_def)
    show \<open>\<forall>e\<in>set (trace s @ process_block env dorks i). event_index e < i + 1\<close>
      using assms b by (auto simp: order_inv_def)
    show \<open>\<forall>j. CheckpointSave j \<in> set (trace s @ process_block env dorks i) \<longrightarrow>
              DorkDone j \<in> set (trace s @ process_block env dorks i)\<close>
      using assms c by (auto simp: order_inv_def)
    show \<open>\<forall>j. BrowserOpened j \<in> set (trace s @ process_block env dorks i) \<longrightarrow>
              BrowserClosed j \<in> set (trace s @ process_block env dorks i) \<or>
              BrowserError j \<in> set (trace s @ process_block env dorks i)\<close>
      using assms block_browser[of _ env dorks i] by (auto simp: order_inv_def)
  qed
qed


lemma visit_inv_step:
  assumes \<open>visit_inv start dorks P0 i s\<close>
  shows \<open>visit_inv start dorks P0 (i + 1) (scan_step env dorks c i s)\<close>
proof (cases \<open>dorks ! i \<in> set (processed s)\<close>)
  case True
  have \<open>j < i + 1 \<longleftrightarrow> j < i \<or> j = i\<close> for j by auto
  then show ?thesis using assms
    by (auto simp: step_skip[OF True] visit_inv_def less_Suc_eq)
next
  case False
  note tr = step_process(1,2)[OF False, of env c]
  have lt: \<open>j < i + 1 \<longleftrightarrow> j < i \<or> j = i\<close> for j by auto
  from False assms have notP0: \<open>dorks ! i \<notin> set P0\<close>
    by (auto simp: visit_inv_def)
  show ?thesis
    unfolding visit_inv_def tr
  proof (intro conjI)
    show \<open>start \<le> i + 1\<close> using assms by (simp add: visit_inv_def)
    show \<open>set P0 \<subseteq> set (processed s @ [dorks ! i])\<close> using assms by (auto simp: visit_inv_def)
    show \<open>\<forall>e\<in>set (trace s @ process_block env dorks i). start \<le> event_index e\<close>
      using assms by (auto simp: visit_inv_def dest!: block_index)
    show \<open>\<forall>j. start \<le> j \<and> j < i + 1 \<longrightarrow>
           SkipProcessed j \<in> set (trace s @ process_block env dorks i) \<or>
           DorkDone j \<in> set (trace s @ process_block env dorks i)\<close>
      using assms block_has(1)[of i env dorks] by (auto simp: visit_inv_def less_Suc_eq)
    show \<open>\<forall>j. start \<le> j \<and> j < i + 1 \<and> dorks ! j \<in> set P0 \<longrightarrow>
           SkipProcessed j \<in> set (trace s @ process_block env dorks i)\<close>
      using assms notP0 by (auto simp: visit_inv_def less_Suc_eq)
    show \<open>\<forall>e\<in>set (trace s @ process_block env dorks i).
           dorks ! event_index e \<in> set P0 \<longrightarrow> e = SkipProcessed (event_index e)\<close>
      using assms notP0 by (auto simp: visit_inv_def dest!: block_index)
  qed
qed

lemma flag_inv_step:
  assumes \<open>flag_inv s\<close>
  shows \<open>flag_inv (scan_step env dorks c i s)\<close>
proof (cases \<open>dorks ! i \<in> set (processed s)\<close>)
  case True
  then show ?thesis using assms by (simp add: step_skip flag_inv_def)
next
  case False
  show ?thesis using assms
    by (auto simp: flag_inv_def step_process(3,4)[OF False] result_has_no_flag)
qed

lemma order_inv_loop:
  \<open>order_inv i s \<Longrightarrow> order_inv (max i (length dorks)) (scan_loop env dorks c i s)\<close>
  by (rule scan_loop_rule[where P = order_inv], assumption, rule order_inv_step)

lemma visit_inv_loop:
  \<open>visit_inv start dorks P0 i s \<Longrightarrow>
   visit_inv start dorks P0 (max i (length dorks)) (scan_loop env dorks c i s)\<close>
  by (rule scan_loop_rule[where P = \<open>visit_inv start dorks P0\<close>], assumption, rule visit_inv_step)

lemma flag_inv_loop: \<open>flag_inv s \<Longrightarrow> flag_inv (scan_loop env dorks c i s)\<close>
  by (rule scan_loop_rule[where P = \<open>\<lambda>i. flag_inv\<close>], assumption, rule flag_inv_step)

lemma run_returns:
  \<open>- 1 \<le> lastIndex (loadCheckpoint fs CHECKPOINT_FILE) \<Longrightarrow>
   \<exists>s. runMultiEngineDorkScan env fs dorks = Some s\<close>
  by (simp add: runMultiEngineDorkScan_def Let_def)

lemma run_invariants:
  assumes \<open>runMultiEngineDorkScan env fs dorks = Some s\<close>
  shows \<open>\<exists>start. int start = lastIndex (loadCheckpoint fs CHECKPOINT_FILE) + 1
           \<and> order_inv (max start (length dorks)) s
           \<and> visit_inv start dorks (processedDorks (loadCheckpoint fs CHECKPOINT_FILE))
                (max start (length dorks)) s
           \<and> flag_inv s\<close>
proof -
  define cp where \<open>cp = loadCheckpoint fs CHECKPOINT_FILE\<close>
  define start where \<open>start = nat (lastIndex cp + 1)\<close>
  define content where \<open>content = (case reportContent cp of None \<Rightarrow> [] | Some c \<Rightarrow> c)\<close>
  define init where \<open>init =
    \<lparr> results = [], processed = processedDorks cp,
      scanStats = \<lparr> totalDorks = length dorks, dorksProcessed = 0, stats_manuallyChecked = 0 \<rparr>,
      disk = fs, trace = [] \<rparr>\<close>
  from assms have nn: \<open>0 \<le> lastIndex cp + 1\<close> and s: \<open>s = scan_loop env dorks content start init\<close>
    by (auto simp: runMultiEngineDorkScan_def Let_def cp_def start_def content_def init_def
             split: if_splits)
  have \<open>order_inv start init\<close>
    by (simp add: order_inv_def init_def in_order_def)
  then have a: \<open>order_inv (max start (length dorks)) s\<close>
    unfolding s by (rule order_inv_loop)
  have \<open>visit_inv start dorks (processedDorks cp) start init\<close>
    by (simp add: visit_inv_def init_def)
  then have b: \<open>visit_inv start dorks (processedDorks cp) (max start (length dorks)) s\<close>
    unfolding s by (rule visit_inv_loop)
  have \<open>flag_inv init\<close>
    by (simp add: flag_inv_def init_def)
  then have c: \<open>flag_inv s\<close>
    unfolding s by (rule flag_inv_loop)
  from nn have \<open>int start = lastIndex cp + 1\<close>
    by (simp add: start_def)
  with a b c show ?thesis
    unfolding cp_def by blast
qed

lemma save_after_done:
  assumes \<open>order_inv n s\<close> and \<open>trace s = pre @ CheckpointSave i # post\<close>
  shows \<open>DorkDone i \<in> set pre\<close>
    and \<open>BrowserOpened i \<in> set pre \<longrightarrow> BrowserClosed i \<in> set pre \<or> BrowserError i \<in> set pre\<close>
    and \<open>\<forall>e\<in>set post. e \<notin> processing_events i\<close>
proof -
  from assms have ord: \<open>in_order (pre @ CheckpointSave i # post)\<close>
    by (simp add: order_inv_def)
  then have \<open>in_order (CheckpointSave i # post)\<close>
    by (simp add: in_order_append)
  then have later: \<open>\<forall>y\<in>set post. event_key (CheckpointSave i) < event_key y\<close>
    by (simp add: in_order_def)
  have keys: \<open>event_key (CheckpointSave i) = 9 * i + 7\<close> \<open>event_key (DorkDone i) = 9 * i + 6\<close>
    \<open>event_key (BrowserClosed i) = 9 * i + 4\<close> \<open>event_key (BrowserError i) = 9 * i + 5\<close>
    by (simp_all add: event_key_def)
  from assms have \<open>DorkDone i \<in> set (trace s)\<close>
    by (auto simp: order_inv_def)
  then show \<open>DorkDone i \<in> set pre\<close>
    using later keys by (auto simp: assms(2))
  show \<open>BrowserOpened i \<in> set pre \<longrightarrow> BrowserClosed i \<in> set pre \<or> BrowserError i \<in> set pre\<close>
  proof
    assume \<open>BrowserOpened i \<in> set pre\<close>
    then have \<open>BrowserOpened i \<in> set (trace s)\<close>
      by (simp add: assms(2))
    with assms(1) have \<open>BrowserClosed i \<in> set (trace s) \<or> BrowserError i \<in> set (trace s)\<close>
      by (auto simp: order_inv_def)
    then show \<open>BrowserClosed i \<in> set pre \<or> BrowserError i \<in> set pre\<close>
      using later keys by (auto simp: assms(2))
  qed
  show \<open>\<forall>e\<in>set post. e \<notin> processing_events i\<close>
    using later by (auto simp: processing_events_def event_key_def)
qed

text \<open>
  Claim C9. Every scan run that starts from a checkpoint with \<open>lastIndex\<close> at least \<open>-1\<close>
  returns, and at the end of every run the counter \<open>stats.manuallyChecked\<close> is zero and no
  result record has the property \<open>manuallyChecked\<close>, whatever the operator answers to the
  verification prompts.
\<close>

theorem manuallyChecked_counter_stays_zero:
  \<open>(- 1 \<le> lastIndex (loadCheckpoint fs CHECKPOINT_FILE) \<longrightarrow>
      (\<exists>s'. runMultiEngineDorkScan env fs dorks = Some s'))
   \<and> (runMultiEngineDorkScan env fs dorks = Some s \<longrightarrow>
        stats_manuallyChecked (scanStats s) = 0
        \<and> (\<forall>r\<in>set (results s). result_manuallyChecked r = None))\<close>
proof (intro conjI impI)
  assume \<open>- 1 \<le> lastIndex (loadCheckpoint fs CHECKPOINT_FILE)\<close>
  then show \<open>\<exists>s'. runMultiEngineDorkScan env fs dorks = Some s'\<close>
    by (rule run_returns)
next
  assume \<open>runMultiEngineDorkScan env fs dorks = Some s\<close>
  from run_invariants[OF this] have \<open>flag_inv s\<close> by blast
  then show \<open>stats_manuallyChecked (scanStats s) = 0\<close>
    and \<open>\<forall>r\<in>set (results s). result_manuallyChecked r = None\<close>
    by (simp_all add: flag_inv_def)
qed

lemma resumed_run_trace:
  \<open>map_option trace (runMultiEngineDorkScan operator_env resumed_disk four_dorks) =
     Some ([DisplayDork 1, AskCheck 1, BrowserOpened 1, BrowserClosed 1, DorkDone 1]
           @ CheckpointSave 1
           # [SkipProcessed 2, DisplayDork 3, AskCheck 3, DorkDone 3, CheckpointSave 3])\<close>
  by code_simp

lemma resumed_run_results:
  \<open>map_option (\<lambda>s. (length (results s), dorksProcessed (scanStats s)))
     (runMultiEngineDorkScan operator_env resumed_disk four_dorks) = Some (2, 2)\<close>
  by code_simp

lemma resumed_checkpoint:
  \<open>lastIndex (loadCheckpoint resumed_disk CHECKPOINT_FILE) = 0\<close>
  \<open>processedDorks (loadCheckpoint resumed_disk CHECKPOINT_FILE) = [''a'', ''c'']\<close>
  by (simp_all add: loadCheckpoint_def resumed_disk_def fs_pathExists_def fs_readFile_def)

text \<open>
  In the resumed scan the operator has the browser opened for the dork at index 1, two
  dorks are processed, and the counter of manual checks is still zero.
\<close>

theorem manuallyChecked_counter_stays_zero_witness:
  \<open>- 1 \<le> lastIndex (loadCheckpoint resumed_disk CHECKPOINT_FILE)
   \<and> (\<exists>s. runMultiEngineDorkScan operator_env resumed_disk four_dorks = Some s
          \<and> BrowserOpened 1 \<in> set (trace s)
          \<and> dorksProcessed (scanStats s) = 2
          \<and> length (results s) = 2
          \<and> stats_manuallyChecked (scanStats s) = 0
          \<and> (\<forall>r\<in>set (results s). result_manuallyChecked r = None))\<close>
proof -
  have a: \<open>- 1 \<le> lastIndex (loadCheckpoint resumed_disk CHECKPOINT_FILE)\<close>
    by (simp add: resumed_checkpoint)
  from resumed_run_trace obtain s where
    s: \<open>runMultiEngineDorkScan operator_env resumed_disk four_dorks = Some s\<close>
    and b: \<open>BrowserOpened 1 \<in> set (trace s)\<close>
    by auto
  from resumed_run_results s have c: \<open>dorksProcessed (scanStats s) = 2\<close> \<open>length (results s) = 2\<close>
    by simp_all
  from manuallyChecked_counter_stays_zero[of resumed_disk operator_env four_dorks s] s
  have \<open>stats_manuallyChecked (scanStats s) = 0 \<and> (\<forall>r\<in>set (results s). result_manuallyChecked r = None)\<close>
    by blast
  with a s b c show ?thesis by blast
qed

text \<open>
  Claim C1. Every scan run that starts from a checkpoint with \<open>lastIndex\<close> at least \<open>-1\<close>
  returns, and in the effects of every run: (1) wherever the checkpoint is saved for index
  \<open>i\<close>, the processing of dork \<open>i\<close> has ended before, a browser verification of dork \<open>i\<close>
  that was opened has ended before, and nothing of the processing of dork \<open>i\<close> happens
  afterwards; (2) no index up to \<open>lastIndex\<close> is touched, and every index from
  \<open>lastIndex + 1\<close> to the end of the list is skipped or processed; (3) every such index
  whose dork is in \<open>processedDorks\<close> of the checkpoint is skipped and nothing else happens
  for it.
\<close>

theorem checkpoint_after_processing_and_resume:
  \<open>(- 1 \<le> lastIndex (loadCheckpoint fs CHECKPOINT_FILE) \<longrightarrow>
      (\<exists>s'. runMultiEngineDorkScan env fs dorks = Some s'))
   \<and> (runMultiEngineDorkScan env fs dorks = Some s \<longrightarrow>
        (\<forall>pre i post. trace s = pre @ CheckpointSave i # post \<longrightarrow>
            DorkDone i \<in> set pre
            \<and> (BrowserOpened i \<in> set pre \<longrightarrow> BrowserClosed i \<in> set pre \<or> BrowserError i \<in> set pre)
            \<and> (\<forall>e\<in>set post. e \<notin> processing_events i))
        \<and> (\<forall>e\<in>set (trace s).
              lastIndex (loadCheckpoint fs CHECKPOINT_FILE) + 1 \<le> int (event_index e))
        \<and> (\<forall>j. lastIndex (loadCheckpoint fs CHECKPOINT_FILE) + 1 \<le> int j \<and> j < length dorks \<longrightarrow>
              SkipProcessed j \<in> set (trace s) \<or> DorkDone j \<in> set (trace s))
        \<and> (\<forall>j. lastIndex (loadCheckpoint fs CHECKPOINT_FILE) + 1 \<le> int j \<and> j < length dorks
                \<and> dorks ! j \<in> set (processedDorks (loadCheckpoint fs CHECKPOINT_FILE)) \<longrightarrow>
              SkipProcessed j \<in> set (trace s)
              \<and> (\<forall>e\<in>set (trace s). event_index e = j \<longrightarrow> e = SkipProcessed j)))\<close>
proof (intro conjI impI)
  assume \<open>- 1 \<le> lastIndex (loadCheckpoint fs CHECKPOINT_FILE)\<close>
  then show \<open>\<exists>s'. runMultiEngineDorkScan env fs dorks = Some s'\<close>
    by (rule run_returns)
next
  assume run: \<open>runMultiEngineDorkScan env fs dorks = Some s\<close>
  define cp where \<open>cp = loadCheckpoint fs CHECKPOINT_FILE\<close>
  from run_invariants[OF run] obtain start where
    start: \<open>int start = lastIndex cp + 1\<close>
    and ord: \<open>order_inv (max start (length dorks)) s\<close>
    and vis: \<open>visit_inv start dorks (processedDorks cp) (max start (length dorks)) s\<close>
    unfolding cp_def by blast
  have range: \<open>lastIndex cp + 1 \<le> int j \<and> j < length dorks \<longleftrightarrow> start \<le> j \<and> j < length dorks\<close> for j
    using start by linarith
  show \<open>\<forall>pre i post. trace s = pre @ CheckpointSave i # post \<longrightarrow>
            DorkDone i \<in> set pre
            \<and> (BrowserOpened i \<in> set pre \<longrightarrow> BrowserClosed i \<in> set pre \<or> BrowserError i \<in> set pre)
            \<and> (\<forall>e\<in>set post. e \<notin> processing_events i)\<close>
    using save_after_done[OF ord] by blast
  show \<open>\<forall>e\<in>set (trace s). lastIndex (loadCheckpoint fs CHECKPOINT_FILE) + 1 \<le> int (event_index e)\<close>
  proof
    fix e assume \<open>e \<in> set (trace s)\<close>
    with vis have \<open>start \<le> event_index e\<close>
      by (simp add: visit_inv_def)
    then show \<open>lastIndex (loadCheckpoint fs CHECKPOINT_FILE) + 1 \<le> int (event_index e)\<close>
      using start by (simp add: cp_def)
  qed
  show \<open>\<forall>j. lastIndex (loadCheckpoint fs CHECKPOINT_FILE) + 1 \<le> int j \<and> j < length dorks \<longrightarrow>
              SkipProcessed j \<in> set (trace s) \<or> DorkDone j \<in> set (trace s)\<close>
  proof (intro allI impI)
    fix j assume \<open>lastIndex (loadCheckpoint fs CHECKPOINT_FILE) + 1 \<le> int j \<and> j < length dorks\<close>
    then have \<open>start \<le> j \<and> j < max start (length dorks)\<close>
      using range[of j] by (simp add: cp_def)
    with vis show \<open>SkipProcessed j \<in> set (trace s) \<or> DorkDone j \<in> set (trace s)\<close>
      by (simp add: visit_inv_def)
  qed
  show \<open>\<forall>j. lastIndex (loadCheckpoint fs CHECKPOINT_FILE) + 1 \<le> int j \<and> j < length dorks
                \<and> dorks ! j \<in> set (processedDorks (loadCheckpoint fs CHECKPOINT_FILE)) \<longrightarrow>
              SkipProcessed j \<in> set (trace s)
              \<and> (\<forall>e\<in>set (trace s). event_index e = j \<longrightarrow> e = SkipProcessed j)\<close>
  proof (intro allI impI)
    fix j assume h: \<open>lastIndex (loadCheckpoint fs CHECKPOINT_FILE) + 1 \<le> int j \<and> j < length dorks
                \<and> dorks ! j \<in> set (processedDorks (loadCheckpoint fs CHECKPOINT_FILE))\<close>
    then have r: \<open>start \<le> j \<and> j < max start (length dorks)\<close> and p: \<open>dorks ! j \<in> set (processedDorks cp)\<close>
      using range[of j] by (simp_all add: cp_def)
    from vis r p have \<open>SkipProcessed j \<in> set (trace s)\<close>
      by (simp add: visit_inv_def)
    moreover from vis p have \<open>\<forall>e\<in>set (trace s). event_index e = j \<longrightarrow> e = SkipProcessed j\<close>
      by (auto simp: visit_inv_def)
    ultimately show \<open>SkipProcessed j \<in> set (trace s)
              \<and> (\<forall>e\<in>set (trace s). event_index e = j \<longrightarrow> e = SkipProcessed j)\<close>
      by blast
  qed
qed

text \<open>
  The resumed scan: the checkpoint says index 0 is done, so the run starts at index 1; the
  save for index 1 comes after the browser verification of dork 1 has ended; and the dork
  at index 2, which the checkpoint lists as processed, is skipped.
\<close>

theorem checkpoint_after_processing_and_resume_witness:
  \<open>- 1 \<le> lastIndex (loadCheckpoint resumed_disk CHECKPOINT_FILE)
   \<and> lastIndex (loadCheckpoint resumed_disk CHECKPOINT_FILE) + 1 \<le> int 2 \<and> 2 < length four_dorks
   \<and> four_dorks ! 2 \<in> set (processedDorks (loadCheckpoint resumed_disk CHECKPOINT_FILE))
   \<and> (\<exists>s. runMultiEngineDorkScan operator_env resumed_disk four_dorks = Some s
          \<and> trace s = [DisplayDork 1, AskCheck 1, BrowserOpened 1, BrowserClosed 1, DorkDone 1]
                        @ CheckpointSave 1
                        # [SkipProcessed 2, DisplayDork 3, AskCheck 3, DorkDone 3, CheckpointSave 3]
          \<and> DorkDone 1 \<in> set [DisplayDork 1, AskCheck 1, BrowserOpened 1, BrowserClosed 1, DorkDone 1]
          \<and> (\<forall>e\<in>set [SkipProcessed 2, DisplayDork 3, AskCheck 3, DorkDone 3, CheckpointSave 3].
                e \<notin> processing_events 1)
          \<and> (\<forall>e\<in>set (trace s). 1 \<le> int (event_index e))
          \<and> SkipProcessed 2 \<in> set (trace s)
          \<and> (\<forall>e\<in>set (trace s). event_index e = 2 \<longrightarrow> e = SkipProcessed 2))\<close>
proof -
  have a: \<open>- 1 \<le> lastIndex (loadCheckpoint resumed_disk CHECKPOINT_FILE)\<close>
    and b: \<open>lastIndex (loadCheckpoint resumed_disk CHECKPOINT_FILE) + 1 \<le> int 2 \<and> 2 < length four_dorks
            \<and> four_dorks ! 2 \<in> set (processedDorks (loadCheckpoint resumed_disk CHECKPOINT_FILE))\<close>
    and c: \<open>lastIndex (loadCheckpoint resumed_disk CHECKPOINT_FILE) + 1 = 1\<close>
    by (simp_all add: resumed_checkpoint four_dorks_def)
  from resumed_run_trace obtain s where
    s: \<open>runMultiEngineDorkScan operator_env resumed_disk four_dorks = Some s\<close>
    and t: \<open>trace s = [DisplayDork 1, AskCheck 1, BrowserOpened 1, BrowserClosed 1, DorkDone 1]
                        @ CheckpointSave 1
                        # [SkipProcessed 2, DisplayDork 3, AskCheck 3, DorkDone 3, CheckpointSave 3]\<close>
    by auto
  note main = checkpoint_after_processing_and_resume[of resumed_disk operator_env four_dorks s]
  from main s t have d: \<open>DorkDone 1 \<in> set [DisplayDork 1, AskCheck 1, BrowserOpened 1, BrowserClosed 1, DorkDone 1]
      \<and> (\<forall>e\<in>set [SkipProcessed 2, DisplayDork 3, AskCheck 3, DorkDone 3, CheckpointSave 3].
            e \<notin> processing_events 1)\<close>
    by blast
  from main s have e: \<open>\<forall>e\<in>set (trace s). 1 \<le> int (event_index e)\<close>
    unfolding c by blast
  from main s b have f: \<open>SkipProcessed 2 \<in> set (trace s)
      \<and> (\<forall>e\<in>set (trace s). event_index e = 2 \<longrightarrow> e = SkipProcessed 2)\<close>
    by blast
  from a b s t d e f show ?thesis by blast
qed

end
